theory Spec2Isabelle
  imports Complex_Main
begin

section \<open>Tensors, errors and the call trace\<close>

text \<open>
  A tensor is its shape together with the value stored at every index (a list with one
  entry per dimension). The element type is left open: \<open>unet.py\<close> never does arithmetic
  on elements itself, it only moves them and lets \<open>F.pad\<close> insert zeros.
\<close>

record 'a tensor =
  shape :: "nat list"
  elem :: "nat list \<Rightarrow> 'a"

text \<open>The Python exceptions that the modelled code and library calls can raise.\<close>

datatype error = IndexError | KeyError | RuntimeError | ValueError | TypeError

text \<open>
  The layers that \<open>unet.py\<close> constructs, with the constructor arguments it passes:
  \<open>Conv3d in out kernel\<close>, \<open>BatchNorm3d features\<close>, \<open>MaxPool3d kernel\<close> (the stride
  defaults to the kernel size) and \<open>ConvTranspose3d in out kernel stride\<close>.
\<close>

datatype module =
    Conv3d nat nat nat
  | BatchNorm3d nat
  | ReLU
  | MaxPool3d nat
  | ConvTranspose3d nat nat nat nat
  | BCEWithLogitsLoss

text \<open>
  Every call that \<open>forward\<close> and the step hooks make is recorded, in order, with the
  shapes of its tensor arguments. A layer is identified by the attribute of the network it
  is stored in and its position inside that attribute's \<open>nn.Sequential\<close> (0 for a layer
  stored directly).
\<close>

datatype callee =
    Layer string nat module
  | CenterCrop
  | FPad "int list"
  | TorchCat nat
  | FCrossEntropy

datatype event = Call callee "nat list list"

type_synonym 'r traced = "event list \<times> (error + 'r)"

definition bindE :: "error + 'r \<Rightarrow> ('r \<Rightarrow> error + 's) \<Rightarrow> error + 's" where
  "bindE m f = (case m of Inl e \<Rightarrow> Inl e | Inr a \<Rightarrow> f a)"

definition returnM :: "'r \<Rightarrow> 'r traced" where
  "returnM a = ([], Inr a)"

definition liftE :: "error + 'r \<Rightarrow> 'r traced" where
  "liftE r = ([], r)"

definition logged :: "event \<Rightarrow> error + 'r \<Rightarrow> 'r traced" where
  "logged ev r = ([ev], r)"

text \<open>Sequencing: an exception ends the run, and the calls made so far stay in the trace.\<close>

definition thenM :: "'r traced \<Rightarrow> ('r \<Rightarrow> 's traced) \<Rightarrow> 's traced" where
  "thenM m f =
     (case m of (tr, r) \<Rightarrow>
        (case r of
           Inl e \<Rightarrow> (tr, Inl e)
         | Inr a \<Rightarrow> (case f a of (tr', r') \<Rightarrow> (tr @ tr', r'))))"

section \<open>The library operators\<close>

text \<open>
  The numerical kernels of the tensor library are floating-point code outside the
  repository. They are parameters of the model: \<open>layer_elem\<close> gives the value a layer
  (with its current weights) computes at an output index from its input alone,
  \<open>bn_eval_elem\<close> gives the value a batch normalisation in evaluation mode computes from
  its running statistics and its input, the two loss functions give the scalar loss or
  the exception they raise, and \<open>mean_kernel\<close> is the \<open>.mean()\<close> reduction of a stack of
  scalar losses. The type \<open>'l\<close> of a scalar loss is left open. What the library does with
  shapes, exceptions and layer state is modelled from its documentation.
\<close>

record ('a, 't, 'l) torch =
  layer_elem :: "string \<Rightarrow> nat \<Rightarrow> module \<Rightarrow> 'a tensor \<Rightarrow> nat list \<Rightarrow> 'a"
  bn_eval_elem :: "string \<Rightarrow> nat \<Rightarrow> module \<Rightarrow> 'a tensor list \<Rightarrow> 'a tensor \<Rightarrow> nat list \<Rightarrow> 'a"
  bce_with_logits :: "'a tensor \<Rightarrow> 'a tensor \<Rightarrow> error + 'l"
  cross_entropy :: "'a tensor \<Rightarrow> 't \<Rightarrow> error + 'l"
  mean_kernel :: "'l list \<Rightarrow> 'l"

text \<open>
  The state that the layers keep between calls. \<open>training\<close> is the mode flag of
  \<open>nn.Module\<close>, set by the constructor and switched by the training framework. Each batch
  normalisation counts the batches it has normalised in training mode and keeps running
  statistics; the statistics are a function of the inputs it has normalised in training
  mode, so the model keeps those inputs, most recent first. A layer is found by its
  attribute name and its position in the \<open>nn.Sequential\<close>.
\<close>

record 'a buffers =
  training :: bool
  num_batches_tracked :: "string \<Rightarrow> nat \<Rightarrow> nat"
  bn_seen :: "string \<Rightarrow> nat \<Rightarrow> 'a tensor list"

text \<open>The state of a freshly constructed module: training mode, nothing normalised yet.\<close>

definition fresh :: "'a buffers" where
  "fresh = \<lparr>training = True, num_batches_tracked = (\<lambda>nm i. 0), bn_seen = (\<lambda>nm i. [])\<rparr>"

text \<open>
  A call that may change the layer state returns the traced result and the state it
  leaves behind; an exception keeps the changes made before it was raised.
\<close>

type_synonym ('a, 'r) stateful = "'a buffers \<Rightarrow> 'r traced \<times> 'a buffers"

definition returnS :: "'r \<Rightarrow> ('a, 'r) stateful" where
  "returnS a st = (returnM a, st)"

definition liftS :: "'r traced \<Rightarrow> ('a, 'r) stateful" where
  "liftS m st = (m, st)"

definition thenS :: "('a, 'r) stateful \<Rightarrow> ('r \<Rightarrow> ('a, 'q) stateful) \<Rightarrow> ('a, 'q) stateful" where
  "thenS m f st =
     (case m st of ((tr, r), st') \<Rightarrow>
        (case r of
           Inl e \<Rightarrow> ((tr, Inl e), st')
         | Inr a \<Rightarrow> (case f a st' of ((tr', r'), st'') \<Rightarrow> ((tr @ tr', r'), st''))))"

text \<open>A run preceded by calls that were made before it.\<close>

definition prepend :: "event list \<Rightarrow> 'r traced \<times> 's \<Rightarrow> 'r traced \<times> 's" where
  "prepend tr run = (case run of ((tr', r), st) \<Rightarrow> ((tr @ tr', r), st))"

text \<open>
  Output shape of a layer, or the exception it raises. The convolutions, the pooling
  and the transposed convolution take a batched input \<open>(N, C, D, H, W)\<close> or an unbatched
  input \<open>(C, D, H, W)\<close>. A convolution without padding shrinks each spatial size by
  \<open>kernel - 1\<close> and needs the input to be at least as large as the kernel; max-pooling
  divides by the kernel size, rounding down, and rejects an empty result; the transposed
  convolution gives \<open>(d - 1) * stride + kernel\<close>. Layers with a channel argument reject an
  input with another channel count, and a convolution with no input or no output
  channels cannot be applied.
\<close>

fun conv_shape :: "nat \<Rightarrow> nat \<Rightarrow> nat \<Rightarrow> nat list \<Rightarrow> error + nat list" where
  "conv_shape cin cout k [n, c, d, h, w] =
     (if cin = 0 \<or> cout = 0 \<or> c \<noteq> cin \<or> k = 0 \<or> d < k \<or> h < k \<or> w < k then Inl RuntimeError
      else Inr [n, cout, d - k + 1, h - k + 1, w - k + 1])"
| "conv_shape cin cout k [c, d, h, w] =
     (if cin = 0 \<or> cout = 0 \<or> c \<noteq> cin \<or> k = 0 \<or> d < k \<or> h < k \<or> w < k then Inl RuntimeError
      else Inr [cout, d - k + 1, h - k + 1, w - k + 1])"
| "conv_shape cin cout k s = Inl RuntimeError"

fun pool_shape :: "nat \<Rightarrow> nat list \<Rightarrow> error + nat list" where
  "pool_shape k [n, c, d, h, w] =
     (if d div k = 0 \<or> h div k = 0 \<or> w div k = 0 then Inl RuntimeError
      else Inr [n, c, d div k, h div k, w div k])"
| "pool_shape k [c, d, h, w] =
     (if d div k = 0 \<or> h div k = 0 \<or> w div k = 0 then Inl RuntimeError
      else Inr [c, d div k, h div k, w div k])"
| "pool_shape k s = Inl RuntimeError"

fun conv_transpose_shape :: "nat \<Rightarrow> nat \<Rightarrow> nat \<Rightarrow> nat \<Rightarrow> nat list \<Rightarrow> error + nat list" where
  "conv_transpose_shape cin cout k s [n, c, d, h, w] =
     (if cin = 0 \<or> cout = 0 \<or> c \<noteq> cin \<or> d = 0 \<or> h = 0 \<or> w = 0 then Inl RuntimeError
      else Inr [n, cout, (d - 1) * s + k, (h - 1) * s + k, (w - 1) * s + k])"
| "conv_transpose_shape cin cout k s [c, d, h, w] =
     (if cin = 0 \<or> cout = 0 \<or> c \<noteq> cin \<or> d = 0 \<or> h = 0 \<or> w = 0 then Inl RuntimeError
      else Inr [cout, (d - 1) * s + k, (h - 1) * s + k, (w - 1) * s + k])"
| "conv_transpose_shape cin cout k s sh = Inl RuntimeError"

text \<open>
  Batch normalisation takes five-dimensional input only (ValueError otherwise). In
  training mode it first rejects an input with a single value per channel (ValueError);
  in both modes it rejects an input with another channel count (RuntimeError).
\<close>

fun batch_norm_shape :: "bool \<Rightarrow> nat \<Rightarrow> nat list \<Rightarrow> error + nat list" where
  "batch_norm_shape train f [n, c, d, h, w] =
     (if train \<and> n * d * h * w = 1 then Inl ValueError
      else if c \<noteq> f then Inl RuntimeError
      else Inr [n, c, d, h, w])"
| "batch_norm_shape train f s = Inl ValueError"

fun layer_shape :: "bool \<Rightarrow> module \<Rightarrow> nat list \<Rightarrow> error + nat list" where
  "layer_shape train (Conv3d cin cout k) s = conv_shape cin cout k s"
| "layer_shape train (BatchNorm3d f) s = batch_norm_shape train f s"
| "layer_shape train ReLU s = Inr s"
| "layer_shape train (MaxPool3d k) s = pool_shape k s"
| "layer_shape train (ConvTranspose3d cin cout k st) s = conv_transpose_shape cin cout k st s"
| "layer_shape train BCEWithLogitsLoss s = Inl TypeError"

fun is_batch_norm :: "module \<Rightarrow> bool" where
  "is_batch_norm (BatchNorm3d f) = True"
| "is_batch_norm m = False"

text \<open>
  Calling a layer: \<open>self.<name>(x)\<close>, or child \<open>i\<close> of the \<open>nn.Sequential\<close> \<open>self.<name>\<close>.
  A batch normalisation in training mode counts the batch as soon as the input is
  five-dimensional, before its other checks, and on success adds the input to what its
  running statistics are made of; its output then comes from the batch alone. In
  evaluation mode it changes nothing and its output comes from the running statistics.
\<close>

definition count_batch :: "string \<Rightarrow> nat \<Rightarrow> 'a buffers \<Rightarrow> 'a buffers" where
  "count_batch nm i st =
     st\<lparr>num_batches_tracked :=
          (num_batches_tracked st)(nm := (num_batches_tracked st nm)(i := Suc (num_batches_tracked st nm i)))\<rparr>"

definition remember :: "string \<Rightarrow> nat \<Rightarrow> 'a tensor \<Rightarrow> 'a buffers \<Rightarrow> 'a buffers" where
  "remember nm i x st =
     st\<lparr>bn_seen := (bn_seen st)(nm := (bn_seen st nm)(i := x # bn_seen st nm i))\<rparr>"

definition call :: "('a, 't, 'l) torch \<Rightarrow> string \<Rightarrow> nat \<Rightarrow> module \<Rightarrow> 'a tensor \<Rightarrow> ('a, 'a tensor) stateful" where
  "call T nm i m x st =
     (let tracking = (is_batch_norm m \<and> training st);
          st1 = (if tracking \<and> length (shape x) = 5 then count_batch nm i st else st)
      in case layer_shape (training st) m (shape x) of
           Inl e \<Rightarrow> (logged (Call (Layer nm i m) [shape x]) (Inl e), st1)
         | Inr s \<Rightarrow>
             (logged (Call (Layer nm i m) [shape x])
                (Inr \<lparr>shape = s,
                      elem = (if is_batch_norm m \<and> \<not> training st
                              then bn_eval_elem T nm i m (bn_seen st nm i) x
                              else layer_elem T nm i m x)\<rparr>),
              if tracking then remember nm i x st1 else st1))"

text \<open>\<open>nn.Sequential\<close> feeds the input through its children in order.\<close>

fun sequential_from :: "('a, 't, 'l) torch \<Rightarrow> string \<Rightarrow> nat \<Rightarrow> module list \<Rightarrow> 'a tensor \<Rightarrow> ('a, 'a tensor) stateful" where
  "sequential_from T nm i [] x = returnS x"
| "sequential_from T nm i (m # ms) x = thenS (call T nm i m x) (sequential_from T nm (Suc i) ms)"

definition sequential :: "('a, 't, 'l) torch \<Rightarrow> string \<Rightarrow> module list \<Rightarrow> 'a tensor \<Rightarrow> ('a, 'a tensor) stateful" where
  "sequential T nm ms x = sequential_from T nm 0 ms x"

text \<open>
  \<open>F.pad(x, pads)\<close> in its default constant mode with value 0. The flat tuple \<open>pads\<close> holds
  a (low, high) pair for the last dimension, then for the one before it, and so on.
  A positive amount adds zeros at that end, a negative amount removes elements. The
  call fails when the tuple has odd length or more pairs than the tensor has
  dimensions, or when a resulting size would be negative.
\<close>

fun pairs :: "int list \<Rightarrow> (int \<times> int) list" where
  "pairs (l # r # ps) = (l, r) # pairs ps"
| "pairs ps = []"

definition dim_pads :: "nat \<Rightarrow> int list \<Rightarrow> (int \<times> int) list" where
  "dim_pads n pads = replicate (n - length pads div 2) (0, 0) @ rev (pairs pads)"

definition padded_sizes :: "nat list \<Rightarrow> (int \<times> int) list \<Rightarrow> int list" where
  "padded_sizes s ps = map (\<lambda>(d, (l, r)). int d + l + r) (zip s ps)"

definition source_index :: "(int \<times> int) list \<Rightarrow> nat list \<Rightarrow> int list" where
  "source_index ps idx = map (\<lambda>(i, (l, r)). int i - l) (zip idx ps)"

definition in_bounds :: "nat list \<Rightarrow> int list \<Rightarrow> bool" where
  "in_bounds s js \<longleftrightarrow> length js = length s \<and> list_all (\<lambda>(d, j). 0 \<le> j \<and> j < int d) (zip s js)"

definition F_pad :: "'a::zero tensor \<Rightarrow> int list \<Rightarrow> 'a tensor traced" where
  "F_pad x pads =
     logged (Call (FPad pads) [shape x])
       (if odd (length pads) \<or> length (shape x) < length pads div 2 then Inl RuntimeError
        else
          let ps = dim_pads (length (shape x)) pads;
              new = padded_sizes (shape x) ps
          in if list_ex (\<lambda>d. d < 0) new then Inl RuntimeError
             else Inr \<lparr>shape = map nat new,
                       elem = (\<lambda>idx. let src = source_index ps idx
                                      in if in_bounds (shape x) src then elem x (map nat src) else 0)\<rparr>)"

text \<open>
  \<open>torch.cat((a, b), dim)\<close>: both tensors need the same number of dimensions and equal
  sizes in every dimension but the given one, along which the result holds \<open>a\<close> followed
  by \<open>b\<close>.
\<close>

definition torch_cat :: "'a tensor \<Rightarrow> 'a tensor \<Rightarrow> nat \<Rightarrow> 'a tensor traced" where
  "torch_cat a b axis =
     logged (Call (TorchCat axis) [shape a, shape b])
       (if length (shape a) \<le> axis then Inl IndexError
        else if length (shape a) \<noteq> length (shape b) \<or> (shape a)[axis := 0] \<noteq> (shape b)[axis := 0]
          then Inl RuntimeError
        else Inr \<lparr>shape = (shape a)[axis := shape a ! axis + shape b ! axis],
                  elem = (\<lambda>idx. if idx ! axis < shape a ! axis then elem a idx
                                 else elem b (idx[axis := idx ! axis - shape a ! axis]))\<rparr>)"

section \<open>The network of \<open>unet.py\<close>\<close>

text \<open>Python's \<open>xs[i]\<close> for a non-negative literal index.\<close>

definition item :: "'b list \<Rightarrow> nat \<Rightarrow> error + 'b" where
  "item xs i = (if i < length xs then Inr (xs ! i) else Inl IndexError)"

definition create_double_conv :: "nat list \<Rightarrow> error + module list" where
  "create_double_conv channels =
     bindE (item channels 0) (\<lambda>c0.
     bindE (item channels 1) (\<lambda>c1.
     bindE (item channels 1) (\<lambda>c1'.
     bindE (item channels 1) (\<lambda>c1''.
     bindE (item channels 2) (\<lambda>c2.
     bindE (item channels 2) (\<lambda>c2'.
       Inr [Conv3d c0 c1 3, BatchNorm3d c1', ReLU, Conv3d c1'' c2 3, BatchNorm3d c2', ReLU]))))))"

record unet =
  in_channels :: nat
  out_channels :: nat
  encoder_conv1 :: "module list"
  encoder_conv2 :: "module list"
  encoder_conv3 :: "module list"
  encoder_conv4 :: "module list"
  decoder_conv1 :: "module list"
  decoder_conv2 :: "module list"
  decoder_conv3 :: "module list"
  maxpool :: module
  upconv1 :: module
  upconv2 :: module
  upconv3 :: module
  outconv :: module
  criterion :: module

text \<open>\<open>UNet.__init__\<close>\<close>

definition init :: "nat \<Rightarrow> nat \<Rightarrow> error + unet" where
  "init in_ch out_ch =
     bindE (create_double_conv [in_ch, 32, 64]) (\<lambda>e1.
     bindE (create_double_conv [64, 64, 128]) (\<lambda>e2.
     bindE (create_double_conv [128, 128, 256]) (\<lambda>e3.
     bindE (create_double_conv [256, 256, 512]) (\<lambda>e4.
     bindE (create_double_conv [256 + 512, 256, 256]) (\<lambda>d1.
     bindE (create_double_conv [128 + 256, 128, 128]) (\<lambda>d2.
     bindE (create_double_conv [64 + 128, 64, 64]) (\<lambda>d3.
       Inr \<lparr>in_channels = in_ch, out_channels = out_ch,
            encoder_conv1 = e1, encoder_conv2 = e2, encoder_conv3 = e3, encoder_conv4 = e4,
            decoder_conv1 = d1, decoder_conv2 = d2, decoder_conv3 = d3,
            maxpool = MaxPool3d 2,
            upconv1 = ConvTranspose3d 512 512 2 2,
            upconv2 = ConvTranspose3d 256 256 2 2,
            upconv3 = ConvTranspose3d 128 128 2 2,
            outconv = Conv3d 64 out_ch 1,
            criterion = BCEWithLogitsLoss\<rparr>)))))))"

text \<open>
  \<open>UNet.center_crop\<close>. The three crop amounts are Python floor divisions of the size
  differences in dimensions 2, 3 and 4; reading a dimension the tensor does not have
  raises IndexError.
\<close>

definition crop_amount :: "'a tensor \<Rightarrow> 'a tensor \<Rightarrow> nat \<Rightarrow> error + int" where
  "crop_amount x_encoder x i =
     bindE (item (shape x_encoder) i) (\<lambda>a.
     bindE (item (shape x) i) (\<lambda>b.
       Inr ((int a - int b) div 2)))"

definition center_crop :: "'a::zero tensor \<Rightarrow> 'a tensor \<Rightarrow> 'a tensor traced" where
  "center_crop x_encoder x =
     thenM (logged (Call CenterCrop [shape x_encoder, shape x]) (Inr ())) (\<lambda>_.
     thenM (liftE (crop_amount x_encoder x 2)) (\<lambda>crop1.
     thenM (liftE (crop_amount x_encoder x 3)) (\<lambda>crop2.
     thenM (liftE (crop_amount x_encoder x 4)) (\<lambda>crop3.
       F_pad x_encoder [- crop3, - crop3, - crop2, - crop2, - crop1, - crop1]))))"

text \<open>
  \<open>UNet.forward\<close>, statement by statement. The layer calls thread the layer state;
  \<open>center_crop\<close> and \<open>torch.cat\<close> do not touch it.
\<close>

definition forward :: "('a::zero, 't, 'l) torch \<Rightarrow> unet \<Rightarrow> 'a tensor \<Rightarrow> ('a, 'a tensor) stateful" where
  "forward T net x =
     thenS (sequential T ''encoder_conv1'' (encoder_conv1 net) x) (\<lambda>x1.
     thenS (call T ''maxpool'' 0 (maxpool net) x1) (\<lambda>x.
     thenS (sequential T ''encoder_conv2'' (encoder_conv2 net) x) (\<lambda>x2.
     thenS (call T ''maxpool'' 0 (maxpool net) x2) (\<lambda>x.
     thenS (sequential T ''encoder_conv3'' (encoder_conv3 net) x) (\<lambda>x3.
     thenS (call T ''maxpool'' 0 (maxpool net) x3) (\<lambda>x.
     thenS (sequential T ''encoder_conv4'' (encoder_conv4 net) x) (\<lambda>x.
     thenS (call T ''upconv1'' 0 (upconv1 net) x) (\<lambda>x.
     thenS (liftS (center_crop x3 x)) (\<lambda>c.
     thenS (liftS (torch_cat c x 1)) (\<lambda>x.
     thenS (sequential T ''decoder_conv1'' (decoder_conv1 net) x) (\<lambda>x.
     thenS (call T ''upconv2'' 0 (upconv2 net) x) (\<lambda>x.
     thenS (liftS (center_crop x2 x)) (\<lambda>c.
     thenS (liftS (torch_cat c x 1)) (\<lambda>x.
     thenS (sequential T ''decoder_conv2'' (decoder_conv2 net) x) (\<lambda>x.
     thenS (call T ''upconv3'' 0 (upconv3 net) x) (\<lambda>x.
     thenS (liftS (center_crop x1 x)) (\<lambda>c.
     thenS (liftS (torch_cat c x 1)) (\<lambda>x.
     thenS (sequential T ''decoder_conv3'' (decoder_conv3 net) x) (\<lambda>x.
     thenS (call T ''outconv'' 0 (outconv net) x) (\<lambda>x.
       returnS x))))))))))))))))))))"

text \<open>\<open>torch.zeros(shape)\<close>, used for concrete inputs.\<close>

definition zeros :: "nat list \<Rightarrow> 'a::zero tensor" where
  "zeros s = \<lparr>shape = s, elem = (\<lambda>idx. 0)\<rparr>"

text \<open>
  The crop aligns the encoder tensor with the decoder tensor when it returns a tensor
  whose sizes from dimension 2 on are those of \<open>x\<close>.
\<close>

definition crop_aligns :: "'a::zero tensor \<Rightarrow> 'a tensor \<Rightarrow> bool" where
  "crop_aligns x_encoder x =
     (case snd (center_crop x_encoder x) of
        Inl e \<Rightarrow> False
      | Inr t \<Rightarrow> drop 2 (shape t) = drop 2 (shape x))"

text \<open>
  A tensor holding distinct values, the row-major position of each index, like
  \<open>torch.arange(n).reshape(shape)\<close>; used for concrete inputs.
\<close>

definition ramp :: "nat list \<Rightarrow> int tensor" where
  "ramp s = \<lparr>shape = s, elem = (\<lambda>idx. int (foldl (\<lambda>acc (d, i). acc * d + i) 0 (zip s idx)))\<rparr>"

section \<open>The training hooks\<close>

text \<open>A Python dict with string keys; a missing key raises KeyError.\<close>

type_synonym 'v dict = "string \<rightharpoonup> 'v"

definition getitem :: "'v dict \<Rightarrow> string \<Rightarrow> error + 'v" where
  "getitem d k = (case d k of None \<Rightarrow> Inl KeyError | Some v \<Rightarrow> Inr v)"

text \<open>
  \<open>self.criterion(output, masks)\<close>: the loss module built in \<open>__init__\<close> is called with two
  tensors; a layer that takes one input rejects the second argument. The batch of
  \<open>training_step\<close> is a dict of tensors, the batch of \<open>validation_step\<close> and \<open>test_step\<close> is
  the pair \<open>(x, y)\<close> that the source unpacks; \<open>batch_idx\<close> is not used by any hook.
\<close>

definition call_criterion :: "('a, 't, 'l) torch \<Rightarrow> module \<Rightarrow> 'a tensor \<Rightarrow> 'a tensor \<Rightarrow> 'l traced" where
  "call_criterion T m output target =
     logged (Call (Layer ''criterion'' 0 m) [shape output, shape target])
       (case m of BCEWithLogitsLoss \<Rightarrow> bce_with_logits T output target | _ \<Rightarrow> Inl TypeError)"

definition F_cross_entropy :: "('a, 't, 'l) torch \<Rightarrow> 'a tensor \<Rightarrow> 't \<Rightarrow> 'l traced" where
  "F_cross_entropy T y_hat y = logged (Call FCrossEntropy [shape y_hat]) (cross_entropy T y_hat y)"

definition training_step :: "('a::zero, 't, 'l) torch \<Rightarrow> unet \<Rightarrow> 'a tensor dict \<Rightarrow> nat \<Rightarrow> ('a, 'l dict) stateful" where
  "training_step T net batch batch_idx =
     thenS (liftS (liftE (getitem batch ''input''))) (\<lambda>input.
     thenS (liftS (liftE (getitem batch ''masks''))) (\<lambda>masks.
     thenS (forward T net input) (\<lambda>output.
     thenS (liftS (call_criterion T (criterion net) output masks)) (\<lambda>loss.
       returnS [''loss'' \<mapsto> loss]))))"

definition validation_step :: "('a::zero, 't, 'l) torch \<Rightarrow> unet \<Rightarrow> 'a tensor \<times> 't \<Rightarrow> nat \<Rightarrow> ('a, 'l dict) stateful" where
  "validation_step T net batch batch_idx =
     (case batch of (x, y) \<Rightarrow>
        thenS (forward T net x) (\<lambda>y_hat.
        thenS (liftS (F_cross_entropy T y_hat y)) (\<lambda>l.
          returnS [''val_loss'' \<mapsto> l])))"

definition test_step :: "('a::zero, 't, 'l) torch \<Rightarrow> unet \<Rightarrow> 'a tensor \<times> 't \<Rightarrow> nat \<Rightarrow> ('a, 'l dict) stateful" where
  "test_step T net batch batch_idx =
     (case batch of (x, y) \<Rightarrow>
        thenS (forward T net x) (\<lambda>y_hat.
        thenS (liftS (F_cross_entropy T y_hat y)) (\<lambda>l.
          returnS [''test_loss'' \<mapsto> l])))"





text \<open>
  \<open>self.parameters()\<close> walks the registered children in the order \<open>__init__\<close> assigned them.
  Convolutions, transposed convolutions and batch normalisations each own a weight and a
  bias; the other layers own no parameter. A parameter is named by its layer and role.
\<close>

datatype param = Param string nat string

fun module_parameters :: "string \<Rightarrow> nat \<Rightarrow> module \<Rightarrow> param list" where
  "module_parameters nm i (Conv3d cin cout k) = [Param nm i ''weight'', Param nm i ''bias'']"
| "module_parameters nm i (BatchNorm3d f) = [Param nm i ''weight'', Param nm i ''bias'']"
| "module_parameters nm i (ConvTranspose3d cin cout k s) = [Param nm i ''weight'', Param nm i ''bias'']"
| "module_parameters nm i m = []"

fun sequential_parameters :: "string \<Rightarrow> nat \<Rightarrow> module list \<Rightarrow> param list" where
  "sequential_parameters nm i [] = []"
| "sequential_parameters nm i (m # ms) = module_parameters nm i m @ sequential_parameters nm (Suc i) ms"

definition children :: "unet \<Rightarrow> (string \<times> module list) list" where
  "children net =
     [(''encoder_conv1'', encoder_conv1 net), (''encoder_conv2'', encoder_conv2 net),
      (''encoder_conv3'', encoder_conv3 net), (''encoder_conv4'', encoder_conv4 net),
      (''decoder_conv1'', decoder_conv1 net), (''decoder_conv2'', decoder_conv2 net),
      (''decoder_conv3'', decoder_conv3 net), (''maxpool'', [maxpool net]),
      (''upconv1'', [upconv1 net]), (''upconv2'', [upconv2 net]), (''upconv3'', [upconv3 net]),
      (''outconv'', [outconv net]), (''criterion'', [criterion net])]"

definition parameters :: "unet \<Rightarrow> param list" where
  "parameters net = concat (map (\<lambda>(nm, ms). sequential_parameters nm 0 ms) (children net))"

text \<open>
  \<open>torch.optim.SGD(params, lr, momentum)\<close> with its other arguments at their defaults. The
  constructor rejects an empty parameter list and negative hyperparameters.
\<close>

record optimizer =
  opt_params :: "param list"
  lr :: real
  momentum :: real
  dampening :: real
  weight_decay :: real
  nesterov :: bool

definition SGD :: "param list \<Rightarrow> real \<Rightarrow> real \<Rightarrow> error + optimizer" where
  "SGD params learning_rate mom =
     (if params = [] \<or> learning_rate < 0 \<or> mom < 0 then Inl ValueError
      else Inr \<lparr>opt_params = params, lr = learning_rate, momentum = mom,
                dampening = 0, weight_decay = 0, nesterov = False\<rparr>)"

text \<open>\<open>UNet.configure_optimizers\<close>, returning the optimizer and the module it leaves behind.\<close>

definition configure_optimizers :: "unet \<Rightarrow> (error + optimizer) \<times> unet" where
  "configure_optimizers net = (SGD (parameters net) 0.02 0.99, net)"

section \<open>Single-precision losses\<close>

text \<open>
  The losses of the step hooks are scalars in IEEE 754 single precision. A value is a
  finite number of the form \<open>m * 2 ^ e\<close> with \<open>\<bar>m\<bar> < 2 ^ 24\<close> and \<open>- 149 \<le> e \<le> 104\<close>, an
  infinity, or not-a-number; the sign of zero is not tracked. \<open>round32\<close> rounds a real
  number to the nearest such value, ties to the even mantissa, and to an infinity from
  \<open>2 ^ 128 - 2 ^ 103\<close> on: the magnitude is scaled by powers of two until the mantissa lies
  in \<open>[2 ^ 23, 2 ^ 24)\<close> or the exponent reaches its bound, and the mantissa is rounded.
\<close>

datatype f32 = Finite real | PosInf | NegInf | NaN

function scale_down :: "real \<Rightarrow> int \<Rightarrow> real \<times> int" where
  "scale_down a e = (if e < 104 \<and> 16777216 \<le> a then scale_down (a / 2) (e + 1) else (a, e))"
  by pat_completeness auto
termination
  by (relation "measure (\<lambda>(a, e). nat (104 - e))") auto

function scale_up :: "real \<Rightarrow> int \<Rightarrow> real \<times> int" where
  "scale_up a e = (if - 149 < e \<and> a < 8388608 then scale_up (a * 2) (e - 1) else (a, e))"
  by pat_completeness auto
termination
  by (relation "measure (\<lambda>(a, e). nat (e + 149))") auto

definition round_half_even :: "real \<Rightarrow> int" where
  "round_half_even q =
     (let f = \<lfloor>q\<rfloor> in
      if q - of_int f < 1 / 2 then f
      else if 1 / 2 < q - of_int f then f + 1
      else if even f then f else f + 1)"

definition pow2 :: "int \<Rightarrow> real" where
  "pow2 e = (if 0 \<le> e then 2 ^ nat e else 1 / 2 ^ nat (- e))"

definition round32 :: "real \<Rightarrow> f32" where
  "round32 x =
     (case (if 16777216 \<le> \<bar>x\<bar> then scale_down \<bar>x\<bar> 0 else scale_up \<bar>x\<bar> 0) of (q, e) \<Rightarrow>
        if e = 104 \<and> 16777216 \<le> round_half_even q then (if x < 0 then NegInf else PosInf)
        else Finite (sgn x * of_int (round_half_even q) * pow2 e))"

fun fadd32 :: "f32 \<Rightarrow> f32 \<Rightarrow> f32" where
  "fadd32 (Finite a) (Finite b) = round32 (a + b)"
| "fadd32 NaN y = NaN"
| "fadd32 x NaN = NaN"
| "fadd32 PosInf NegInf = NaN"
| "fadd32 NegInf PosInf = NaN"
| "fadd32 PosInf y = PosInf"
| "fadd32 NegInf y = NegInf"
| "fadd32 x PosInf = PosInf"
| "fadd32 x NegInf = NegInf"

text \<open>
  Division of a sum by the number of entries, which is first converted to single
  precision: a finite sum divided by an infinite count is zero, an infinite sum divided
  by an infinite count and zero divided by zero are not-a-number.
\<close>

fun div_by_count :: "f32 \<Rightarrow> f32 \<Rightarrow> f32" where
  "div_by_count (Finite a) (Finite b) =
     (if b = 0 then (if a = 0 then NaN else if 0 < a then PosInf else NegInf) else round32 (a / b))"
| "div_by_count (Finite a) PosInf = Finite 0"
| "div_by_count PosInf (Finite b) = PosInf"
| "div_by_count NegInf (Finite b) = NegInf"
| "div_by_count x n = NaN"

text \<open>
  A mean reduction that adds the entries from left to right in single precision and
  divides by their number. With one or two entries every order of adding gives this
  result.
\<close>

definition mean32 :: "f32 list \<Rightarrow> f32" where
  "mean32 xs = div_by_count (foldl fadd32 (Finite 0) xs) (round32 (real (length xs)))"

section \<open>Properties stated about runs\<close>

text \<open>
  Constructing the network and running \<open>forward\<close> on it:
  \<open>UNet(in_ch, out_ch).forward(x)\<close>.
\<close>

definition build_and_forward :: "('a::zero, 't, 'l) torch \<Rightarrow> nat \<Rightarrow> nat \<Rightarrow> 'a tensor \<Rightarrow> ('a, 'a tensor) stateful" where
  "build_and_forward T in_ch out_ch x = thenS (liftS (liftE (init in_ch out_ch))) (\<lambda>net. forward T net x)"

text \<open>
  A library whose layer kernels and loss functions return zero everywhere and whose
  mean is \<open>mean32\<close>, for concrete runs.
\<close>

definition torch0 :: "(int, int tensor, f32) torch" where
  "torch0 = \<lparr>layer_elem = (\<lambda>nm i m x idx. 0),
             bn_eval_elem = (\<lambda>nm i m seen x idx. 0),
             bce_with_logits = (\<lambda>output target. Inr (Finite 0)),
             cross_entropy = (\<lambda>y_hat y. Inr (Finite 0)),
             mean_kernel = mean32\<rparr>"

text \<open>
  What \<open>center_crop\<close> and \<open>torch.cat\<close> saw in a trace: a crop call is in order when, in each
  spatial dimension, the encoder size is at least the decoder size and the difference is
  even; a concatenation is aligned when both shapes agree outside the concatenated
  dimension.
\<close>

fun crop_ok :: "event \<Rightarrow> bool" where
  "crop_ok (Call CenterCrop [se, sx]) =
     list_all2 (\<lambda>a b. b \<le> a \<and> even (a - b)) (drop 2 se) (drop 2 sx)"
| "crop_ok (Call CenterCrop ss) = False"
| "crop_ok ev = True"

fun cat_ok :: "event \<Rightarrow> bool" where
  "cat_ok (Call (TorchCat ax) [sa, sb]) = (length sa = length sb \<and> ax < length sa \<and> sa[ax := 0] = sb[ax := 0])"
| "cat_ok (Call (TorchCat ax) ss) = False"
| "cat_ok ev = True"

fun is_crop :: "event \<Rightarrow> bool" where
  "is_crop (Call CenterCrop ss) = True"
| "is_crop ev = False"

fun is_cat :: "event \<Rightarrow> bool" where
  "is_cat (Call (TorchCat ax) ss) = True"
| "is_cat ev = False"

text \<open>
  The operator kinds the specification lists (3D convolution, batch normalisation,
  max-pooling, transposed convolution), and the kinds the code uses. Entering the
  network's own method \<open>center_crop\<close> is not a library operator and counts for neither.
\<close>

fun spec_listed :: "callee \<Rightarrow> bool" where
  "spec_listed (Layer nm i (Conv3d cin cout k)) = True"
| "spec_listed (Layer nm i (BatchNorm3d f)) = True"
| "spec_listed (Layer nm i (MaxPool3d k)) = True"
| "spec_listed (Layer nm i (ConvTranspose3d cin cout k s)) = True"
| "spec_listed CenterCrop = True"
| "spec_listed c = False"

fun code_listed :: "callee \<Rightarrow> bool" where
  "code_listed (Layer nm i ReLU) = True"
| "code_listed (FPad pads) = True"
| "code_listed (TorchCat ax) = True"
| "code_listed c = spec_listed c"

fun callee_of :: "event \<Rightarrow> callee" where
  "callee_of (Call c ss) = c"

text \<open>
  Two runs make the same calls and end the same way when their traces are equal and
  they either raise the same exception or return tensors of the same shape.
\<close>

definition same_run :: "'a tensor traced \<Rightarrow> 'a tensor traced \<Rightarrow> bool" where
  "same_run m m' \<longleftrightarrow>
     fst m = fst m' \<and>
     (case snd m of
        Inl e \<Rightarrow> snd m' = Inl e
      | Inr t \<Rightarrow> (case snd m' of Inl e' \<Rightarrow> False | Inr t' \<Rightarrow> shape t = shape t'))"

text \<open>
  The layer order in the words of the specification: encoder blocks with a max-pool
  between consecutive blocks, each block's output before pooling kept as a skip
  connection; decoder stages that upsample by transposed convolution, concatenate the
  centre-cropped skip connection of the matching encoder block in front of the
  upsampled tensor along dimension 1, and apply a decoder block; a final convolution.
\<close>

fun spec_encoder :: "('a, 't, 'l) torch \<Rightarrow> module \<Rightarrow> (string \<times> module list) list \<Rightarrow> 'a tensor \<Rightarrow>
    ('a, 'a tensor list \<times> 'a tensor) stateful" where
  "spec_encoder T pool [] x = returnS ([], x)"
| "spec_encoder T pool [(nm, blk)] x = thenS (sequential T nm blk x) (\<lambda>y. returnS ([], y))"
| "spec_encoder T pool ((nm, blk) # rest) x =
     thenS (sequential T nm blk x) (\<lambda>skip.
     thenS (call T ''maxpool'' 0 pool skip) (\<lambda>pooled.
     thenS (spec_encoder T pool rest pooled) (\<lambda>(skips, y).
       returnS (skip # skips, y))))"

fun spec_decoder :: "('a::zero, 't, 'l) torch \<Rightarrow> ((string \<times> module) \<times> (string \<times> module list)) list \<Rightarrow>
    'a tensor list \<Rightarrow> 'a tensor \<Rightarrow> ('a, 'a tensor) stateful" where
  "spec_decoder T [] skips x = returnS x"
| "spec_decoder T (((un, up), (bn, blk)) # stages) (skip # skips) x =
     thenS (call T un 0 up x) (\<lambda>upsampled.
     thenS (liftS (center_crop skip upsampled)) (\<lambda>cropped.
     thenS (liftS (torch_cat cropped upsampled 1)) (\<lambda>joined.
     thenS (sequential T bn blk joined) (\<lambda>y.
       spec_decoder T stages skips y))))"
| "spec_decoder T stages [] x = liftS ([], Inl IndexError)"

definition spec_forward :: "('a::zero, 't, 'l) torch \<Rightarrow> unet \<Rightarrow> 'a tensor \<Rightarrow> ('a, 'a tensor) stateful" where
  "spec_forward T net x =
     thenS (spec_encoder T (maxpool net)
              [(''encoder_conv1'', encoder_conv1 net), (''encoder_conv2'', encoder_conv2 net),
               (''encoder_conv3'', encoder_conv3 net), (''encoder_conv4'', encoder_conv4 net)] x)
       (\<lambda>(skips, y).
     thenS (spec_decoder T
              [((''upconv1'', upconv1 net), (''decoder_conv1'', decoder_conv1 net)),
               ((''upconv2'', upconv2 net), (''decoder_conv2'', decoder_conv2 net)),
               ((''upconv3'', upconv3 net), (''decoder_conv3'', decoder_conv3 net))]
              (rev skips) y)
       (\<lambda>z. call T ''outconv'' 0 (outconv net) z))"

text \<open>
  Two stateful computations are driven by the shape when, started in the same mode,
  they make the same calls, end the same way and leave the same mode behind.
\<close>

definition shape_driven :: "('a, 'a tensor) stateful \<Rightarrow> ('a, 'a tensor) stateful \<Rightarrow> bool" where
  "shape_driven m m' \<longleftrightarrow>
     (\<forall>st st'. training st = training st' \<longrightarrow>
        same_run (fst (m st)) (fst (m' st')) \<and> training (snd (m st)) = training (snd (m' st')))"

text \<open>
  Two layer states agree when they are in the same mode and, in evaluation mode, hold
  the same running statistics. In training mode the running statistics and the batch
  counters may differ. A stateful computation is steady when it gives the same trace and
  the same result from any two states that agree, and leaves a state that agrees with
  the one it started from.
\<close>

definition agree :: "'a buffers \<Rightarrow> 'a buffers \<Rightarrow> bool" where
  "agree st st' \<longleftrightarrow> training st = training st' \<and> (training st \<or> bn_seen st = bn_seen st')"

definition steady :: "('a, 'r) stateful \<Rightarrow> bool" where
  "steady m \<longleftrightarrow>
     (\<forall>st st'. agree st st' \<longrightarrow> fst (m st) = fst (m st') \<and> agree (snd (m st)) (snd (m st'))) \<and>
     (\<forall>st. agree st (snd (m st)))"

text \<open>The double convolution block of the given channel triple, as \<open>create_double_conv\<close> lays it out.\<close>

definition double_conv :: "nat \<Rightarrow> nat \<Rightarrow> nat \<Rightarrow> module list" where
  "double_conv c0 c1 c2 = [Conv3d c0 c1 3, BatchNorm3d c1, ReLU, Conv3d c1 c2 3, BatchNorm3d c2, ReLU]"

fun is_layer :: "event \<Rightarrow> bool" where
  "is_layer (Call (Layer nm i m) ss) = True"
| "is_layer ev = False"

section \<open>Basic facts\<close>

lemma thenM_Inr [simp]: "thenM (tr, Inr a) f = (case f a of (tr', r') \<Rightarrow> (tr @ tr', r'))"
  by (simp add: thenM_def)
lemma thenM_Inl [simp]: "thenM (tr, Inl e) f = (tr, Inl e)"
  by (simp add: thenM_def)

lemma dim_pads_5:
  "dim_pads 5 [l3, r3, l2, r2, l1, r1] = [(0,0), (0,0), (l1, r1), (l2, r2), (l3, r3)]"
proof -
  have "length [l3, r3, l2, r2, l1, r1] div 2 = 3" by simp
  moreover have "replicate (5 - 3) (0::int, 0::int) = [(0,0), (0,0)]" by (simp add: numeral_2_eq_2)
  ultimately show ?thesis unfolding dim_pads_def by simp
qed

lemma crop_amount_5:
  "shape xe = [n, c, a1, a2, a3] \<Longrightarrow> shape x = [n', c', b1, b2, b3] \<Longrightarrow>
   crop_amount xe x 2 = Inr ((int a1 - int b1) div 2) \<and>
   crop_amount xe x 3 = Inr ((int a2 - int b2) div 2) \<and>
   crop_amount xe x 4 = Inr ((int a3 - int b3) div 2)"
  by (simp add: crop_amount_def item_def bindE_def eval_nat_numeral)

lemma F_pad_5:
  assumes sh: "shape x = [n, c, a1, a2, a3]"
    and nn: "0 \<le> int a1 + l1 + r1" "0 \<le> int a2 + l2 + r2" "0 \<le> int a3 + l3 + r3"
  shows "F_pad x [l3, r3, l2, r2, l1, r1] =
     ([Call (FPad [l3, r3, l2, r2, l1, r1]) [shape x]],
      Inr \<lparr>shape = [n, c, nat (int a1 + l1 + r1), nat (int a2 + l2 + r2), nat (int a3 + l3 + r3)],
           elem = (\<lambda>idx. let src = source_index [(0, 0), (0, 0), (l1, r1), (l2, r2), (l3, r3)] idx
                          in if in_bounds (shape x) src then elem x (map nat src) else 0)\<rparr>)"
proof -
  have len: "length (shape x) = 5" by (simp add: sh)
  have ps: "dim_pads (length (shape x)) [l3, r3, l2, r2, l1, r1] =
              [(0, 0), (0, 0), (l1, r1), (l2, r2), (l3, r3)]"
    by (simp only: len dim_pads_5)
  have new: "padded_sizes (shape x) [(0, 0), (0, 0), (l1, r1), (l2, r2), (l3, r3)] =
              [int n, int c, int a1 + l1 + r1, int a2 + l2 + r2, int a3 + l3 + r3]"
    by (simp add: padded_sizes_def sh)
  have ok: "\<not> (odd (length [l3, r3, l2, r2, l1, r1]) \<or>
                length (shape x) < length [l3, r3, l2, r2, l1, r1] div 2)"
    by (simp add: len)
  show ?thesis
    unfolding F_pad_def Let_def ps new if_not_P[OF ok]
    using nn by (simp add: logged_def)
qed

lemma center_crop_5:
  assumes "shape xe = [n, c, a1, a2, a3]" "shape x = [n', c', b1, b2, b3]"
  defines "c1 \<equiv> (int a1 - int b1) div 2" and "c2 \<equiv> (int a2 - int b2) div 2" and "c3 \<equiv> (int a3 - int b3) div 2"
  shows "center_crop xe x =
     ([Call CenterCrop [shape xe, shape x], Call (FPad [- c3, - c3, - c2, - c2, - c1, - c1]) [shape xe]],
      Inr \<lparr>shape = [n, c, nat (int a1 - 2 * c1), nat (int a2 - 2 * c2), nat (int a3 - 2 * c3)],
           elem = (\<lambda>idx. let src = source_index [(0,0), (0,0), (- c1, - c1), (- c2, - c2), (- c3, - c3)] idx
                                      in if in_bounds (shape xe) src then elem xe (map nat src) else 0)\<rparr>)"
proof -
  have nn: "0 \<le> int a1 + - c1 + - c1" "0 \<le> int a2 + - c2 + - c2" "0 \<le> int a3 + - c3 + - c3"
    unfolding c1_def c2_def c3_def by linarith+
  have cr: "crop_amount xe x 2 = Inr c1" "crop_amount xe x 3 = Inr c2" "crop_amount xe x 4 = Inr c3"
    using crop_amount_5[OF assms(1,2)] by (simp_all add: c1_def c2_def c3_def)
  show ?thesis
    unfolding center_crop_def cr liftE_def logged_def thenM_Inr F_pad_5[OF assms(1) nn]
    by simp
qed


lemma shape5:
  assumes "length s = 5"
  obtains n c a1 a2 a3 where "s = [n, c, a1, a2, a3]"
proof -
  from assms obtain n s1 where "s = n # s1" "length s1 = 4" by (cases s) auto
  moreover then obtain c s2 where "s1 = c # s2" "length s2 = 3" by (cases s1) auto
  moreover then obtain a1 s3 where "s2 = a1 # s3" "length s3 = 2" by (cases s2) auto
  moreover then obtain a2 s4 where "s3 = a2 # s4" "length s4 = 1" by (cases s3) auto
  moreover then obtain a3 where "s4 = [a3]" by (cases s4) auto
  ultimately show ?thesis using that by blast
qed

lemma crop_aligns_5:
  assumes "shape xe = [n, c, a1, a2, a3]" and "shape x = [n', c', b1, b2, b3]"
  shows "crop_aligns xe x \<longleftrightarrow>
           nat (int a1 - 2 * ((int a1 - int b1) div 2)) = b1 \<and>
           nat (int a2 - 2 * ((int a2 - int b2) div 2)) = b2 \<and>
           nat (int a3 - 2 * ((int a3 - int b3) div 2)) = b3"
  by (simp add: crop_aligns_def center_crop_5[OF assms] assms(2))

section \<open>Center crop\<close>

text \<open>
  C1 as stated fails: with encoder size 5 and decoder size 4 in each spatial dimension the
  difference is odd, the crop amount is \<open>1 div 2 = 0\<close>, and the result keeps size 5.
\<close>

theorem center_crop_odd_difference_counterexample:
  "length (shape (zeros [1, 1, 5, 5, 5] :: real tensor)) = 5 \<and>
   length (shape (zeros [1, 1, 4, 4, 4] :: real tensor)) = 5 \<and>
   list_all2 (\<le>) (drop 2 (shape (zeros [1, 1, 4, 4, 4] :: real tensor)))
                   (drop 2 (shape (zeros [1, 1, 5, 5, 5] :: real tensor))) \<and>
   \<not> crop_aligns (zeros [1, 1, 5, 5, 5] :: real tensor) (zeros [1, 1, 4, 4, 4])"
  by (simp add: crop_aligns_5[of _ 1 1 5 5 5 _ 1 1 4 4 4] zeros_def)

text \<open>
  C1 (amended): for five-dimensional tensors where every spatial size of \<open>x_encoder\<close> is
  at least that of \<open>x\<close> and exceeds it by an even amount, \<open>center_crop\<close> returns a tensor
  whose three spatial sizes equal those of \<open>x\<close>.
\<close>

theorem center_crop_aligns_even:
  assumes "length (shape x_encoder) = 5" and "length (shape x) = 5"
    and "\<forall>i\<in>{2, 3, 4}. shape x ! i \<le> shape x_encoder ! i \<and> even (shape x_encoder ! i - shape x ! i)"
  shows "crop_aligns x_encoder x"
proof -
  obtain n c a1 a2 a3 where se: "shape x_encoder = [n, c, a1, a2, a3]"
    using assms(1) by (rule shape5)
  obtain n' c' b1 b2 b3 where sx: "shape x = [n', c', b1, b2, b3]"
    using assms(2) by (rule shape5)
  have exact: "nat (int a - 2 * ((int a - int b) div 2)) = b" if "b \<le> a" "even (a - b)" for a b :: nat
  proof -
    from that have "even (int a - int b)" by (simp add: of_nat_diff [symmetric] del: of_nat_diff)
    then have "2 * ((int a - int b) div 2) = int a - int b" by simp
    then show ?thesis by simp
  qed
  from assms(3) have "b1 \<le> a1 \<and> even (a1 - b1)" "b2 \<le> a2 \<and> even (a2 - b2)" "b3 \<le> a3 \<and> even (a3 - b3)"
    unfolding se sx by auto
  then show ?thesis
    unfolding crop_aligns_5[OF se sx] by (simp only: exact)
qed

theorem center_crop_aligns_even_witness:
  "length (shape (zeros [1, 3, 8, 6, 4] :: real tensor)) = 5 \<and>
   length (shape (zeros [1, 2, 4, 4, 4] :: real tensor)) = 5 \<and>
   list_all2 (\<lambda>b a. b \<le> a \<and> even (a - b))
     (drop 2 (shape (zeros [1, 2, 4, 4, 4] :: real tensor)))
     (drop 2 (shape (zeros [1, 3, 8, 6, 4] :: real tensor))) \<and>
   crop_aligns (zeros [1, 3, 8, 6, 4] :: real tensor) (zeros [1, 2, 4, 4, 4])"
  using center_crop_aligns_even [of "zeros [1, 3, 8, 6, 4] :: real tensor" "zeros [1, 2, 4, 4, 4]"]
  by (simp add: zeros_def)

lemma in_bounds_5:
  "in_bounds [n, c, a1, a2, a3] [j0, j1, j2, j3, j4] \<longleftrightarrow>
     0 \<le> j0 \<and> j0 < int n \<and> 0 \<le> j1 \<and> j1 < int c \<and> 0 \<le> j2 \<and> j2 < int a1 \<and>
     0 \<le> j3 \<and> j3 < int a2 \<and> 0 \<le> j4 \<and> j4 < int a3"
  by (auto simp add: in_bounds_def)

lemma source_index_5:
  "source_index [(l0, r0), (l1, r1), (l2, r2), (l3, r3), (l4, r4)] [i0, i1, i2, i3, i4] =
     [int i0 - l0, int i1 - l1, int i2 - l2, int i3 - l3, int i4 - l4]"
  by (simp add: source_index_def)

lemma center_crop_elem_5:
  assumes "shape xe = [n, c, a1, a2, a3]" and "shape x = [n', c', b1, b2, b3]"
    and "snd (center_crop xe x) = Inr t"
  shows "elem t [i0, i1, i2, i3, i4] =
     (if i0 < n \<and> i1 < c \<and>
         0 \<le> int i2 + (int a1 - int b1) div 2 \<and> int i2 + (int a1 - int b1) div 2 < int a1 \<and>
         0 \<le> int i3 + (int a2 - int b2) div 2 \<and> int i3 + (int a2 - int b2) div 2 < int a2 \<and>
         0 \<le> int i4 + (int a3 - int b3) div 2 \<and> int i4 + (int a3 - int b3) div 2 < int a3
      then elem xe [i0, i1, nat (int i2 + (int a1 - int b1) div 2),
                    nat (int i3 + (int a2 - int b2) div 2), nat (int i4 + (int a3 - int b3) div 2)]
      else 0)"
  using assms(3) unfolding center_crop_5[OF assms(1,2)]
  by (auto simp add: Let_def source_index_5 assms(1) in_bounds_5)

text \<open>
  C6: where the encoder tensor is at least as large as the decoder tensor, \<open>center_crop\<close>
  is a centred crop of the spatial extent only. With \<open>k = (a - b) div 2\<close> for encoder size
  \<open>a\<close> and decoder size \<open>b\<close>, the result has size \<open>a - 2 * k\<close> in that dimension, its
  element at position \<open>i\<close> is the encoder's element at position \<open>i + k\<close> (so \<open>k\<close> elements
  are dropped at each end), and the batch and channel sizes and indices are unchanged.
\<close>

theorem center_crop_window:
  assumes se: "shape x_encoder = [n, c, a1, a2, a3]" and sx: "shape x = [n', c', b1, b2, b3]"
    and le: "b1 \<le> a1" "b2 \<le> a2" "b3 \<le> a3"
  shows "\<exists>t. snd (center_crop x_encoder x) = Inr t \<and>
           shape t = [n, c, a1 - 2 * ((a1 - b1) div 2), a2 - 2 * ((a2 - b2) div 2), a3 - 2 * ((a3 - b3) div 2)] \<and>
           (\<forall>i0 i1 i2 i3 i4.
              i0 < n \<and> i1 < c \<and> i2 < a1 - 2 * ((a1 - b1) div 2) \<and>
              i3 < a2 - 2 * ((a2 - b2) div 2) \<and> i4 < a3 - 2 * ((a3 - b3) div 2) \<longrightarrow>
              elem t [i0, i1, i2, i3, i4] =
                elem x_encoder [i0, i1, i2 + (a1 - b1) div 2, i3 + (a2 - b2) div 2, i4 + (a3 - b3) div 2])"
proof -
  have cr: "(int a - int b) div 2 = int ((a - b) div 2)" if "b \<le> a" for a b :: nat
    using that by (simp add: of_nat_diff zdiv_int)
  obtain t where t: "snd (center_crop x_encoder x) = Inr t"
    by (simp add: center_crop_5[OF se sx])
  have sh: "shape t = [n, c, a1 - 2 * ((a1 - b1) div 2), a2 - 2 * ((a2 - b2) div 2), a3 - 2 * ((a3 - b3) div 2)]"
    using t le unfolding center_crop_5[OF se sx] by (auto simp add: cr nat_diff_distrib' simp flip: of_nat_mult)
  have el: "elem t [i0, i1, i2, i3, i4] =
                elem x_encoder [i0, i1, i2 + (a1 - b1) div 2, i3 + (a2 - b2) div 2, i4 + (a3 - b3) div 2]"
    if "i0 < n" "i1 < c" "i2 < a1 - 2 * ((a1 - b1) div 2)"
       "i3 < a2 - 2 * ((a2 - b2) div 2)" "i4 < a3 - 2 * ((a3 - b3) div 2)" for i0 i1 i2 i3 i4
  proof -
    have "int i2 + int ((a1 - b1) div 2) < int a1" "int i3 + int ((a2 - b2) div 2) < int a2"
         "int i4 + int ((a3 - b3) div 2) < int a3"
      using that le by linarith+
    then show ?thesis
      using that le unfolding center_crop_elem_5[OF se sx t]
      by (simp add: cr nat_add_distrib)
  qed
  show ?thesis using t sh el by blast
qed


theorem center_crop_window_witness:
  "\<exists>t. snd (center_crop (ramp [1, 1, 6, 6, 6]) (ramp [1, 1, 2, 2, 2])) = Inr t \<and>
       shape t = [1, 1, 2, 2, 2] \<and> elem t [0, 0, 0, 1, 0] = 92 \<and>
       elem (ramp [1, 1, 6, 6, 6]) [0, 0, 2, 3, 2] = 92"
  using center_crop_window [of "ramp [1, 1, 6, 6, 6]" 1 1 6 6 6 "ramp [1, 1, 2, 2, 2]" 1 1 2 2 2]
  by (auto simp add: ramp_def)




lemma create_double_conv_3 [simp]:
  "create_double_conv [c0, c1, c2] = Inr (double_conv c0 c1 c2)"
  by (simp add: create_double_conv_def item_def bindE_def double_conv_def)

lemma init_eq:
  "init in_ch out_ch =
     Inr \<lparr>in_channels = in_ch, out_channels = out_ch,
          encoder_conv1 = double_conv in_ch 32 64, encoder_conv2 = double_conv 64 64 128,
          encoder_conv3 = double_conv 128 128 256, encoder_conv4 = double_conv 256 256 512,
          decoder_conv1 = double_conv 768 256 256, decoder_conv2 = double_conv 384 128 128,
          decoder_conv3 = double_conv 192 64 64,
          maxpool = MaxPool3d 2,
          upconv1 = ConvTranspose3d 512 512 2 2,
          upconv2 = ConvTranspose3d 256 256 2 2,
          upconv3 = ConvTranspose3d 128 128 2 2,
          outconv = Conv3d 64 out_ch 1,
          criterion = BCEWithLogitsLoss\<rparr>"
  by (simp add: init_def bindE_def)

section \<open>Optimizer\<close>

text \<open>
  C5: for every network that \<open>__init__\<close> builds, \<open>configure_optimizers\<close> returns one SGD
  optimizer over the list of all the module's parameters (64 of them) with learning rate
  0.02 and momentum 0.99, and the module is left as it was.
\<close>

theorem configure_optimizers_sgd:
  "\<exists>net. init in_ch out_ch = Inr net \<and>
     configure_optimizers net =
       (Inr \<lparr>opt_params = parameters net, lr = 0.02, momentum = 0.99,
             dampening = 0, weight_decay = 0, nesterov = False\<rparr>, net) \<and>
     length (parameters net) = 64"
  by (simp add: init_eq configure_optimizers_def SGD_def parameters_def children_def double_conv_def)

section \<open>Running \<open>forward\<close>\<close>

lemma call_ok:
  "layer_shape (training st) m (shape x) = Inr s \<Longrightarrow>
   \<exists>t st'. call T nm i m x st = (([Call (Layer nm i m) [shape x]], Inr t), st') \<and> shape t = s"
  by (simp add: call_def logged_def Let_def)

lemma call_fail:
  "layer_shape (training st) m (shape x) = Inl e \<Longrightarrow>
   \<exists>st'. call T nm i m x st = (([Call (Layer nm i m) [shape x]], Inl e), st')"
  by (simp add: call_def logged_def Let_def)

lemma thenS_prepend:
  "thenS m f st =
     (case m st of ((tr, r), st') \<Rightarrow>
        (case r of Inl e \<Rightarrow> ((tr, Inl e), st') | Inr a \<Rightarrow> prepend tr (f a st')))"
  by (simp add: thenS_def prepend_def split: prod.splits sum.splits)

lemma prepend_prepend: "prepend tr (prepend tr' run) = prepend (tr @ tr') run"
  by (simp add: prepend_def split: prod.splits)

lemma prepend_result [simp]: "prepend tr ((tr', r), st) = ((tr @ tr', r), st)"
  by (simp add: prepend_def)

lemma thenS_returnS_right: "thenS m returnS = m"
  by (rule ext) (simp add: thenS_def returnS_def returnM_def split: prod.splits sum.splits)

lemma batch_norm_shape_ok:
  "2 \<le> d \<Longrightarrow> batch_norm_shape b c [n, c, d, h, w] = Inr [n, c, d, h, w]"
  by auto

lemma block_ok:
  assumes sh: "shape x = [n, cin, d, h, w]" and big: "6 \<le> d" "5 \<le> h" "5 \<le> w"
    and ch: "0 < cin" "0 < cmid" "0 < cout"
  shows "\<exists>tr t st'. sequential T nm (double_conv cin cmid cout) x st = ((tr, Inr t), st') \<and>
           shape t = [n, cout, d - 4, h - 4, w - 4] \<and> list_all is_layer tr \<and>
           map callee_of tr =
             [Layer nm 0 (Conv3d cin cmid 3), Layer nm 1 (BatchNorm3d cmid), Layer nm 2 ReLU,
              Layer nm 3 (Conv3d cmid cout 3), Layer nm 4 (BatchNorm3d cout), Layer nm 5 ReLU]"
proof -
  have "layer_shape (training st) (Conv3d cin cmid 3) (shape x) = Inr [n, cmid, d - 2, h - 2, w - 2]"
    using big ch by (auto simp add: sh)
  from call_ok[OF this] obtain t1 st1
    where r1: "call T nm 0 (Conv3d cin cmid 3) x st = (([Call (Layer nm 0 (Conv3d cin cmid 3)) [shape x]], Inr t1), st1)"
      and s1: "shape t1 = [n, cmid, d - 2, h - 2, w - 2]"
    by blast
  have "layer_shape (training st1) (BatchNorm3d cmid) (shape t1) = Inr [n, cmid, d - 2, h - 2, w - 2]"
    using big by (simp add: s1 batch_norm_shape_ok del: batch_norm_shape.simps)
  from call_ok[OF this] obtain t2 st2
    where r2: "call T nm 1 (BatchNorm3d cmid) t1 st1 = (([Call (Layer nm 1 (BatchNorm3d cmid)) [shape t1]], Inr t2), st2)"
      and s2: "shape t2 = [n, cmid, d - 2, h - 2, w - 2]"
    by blast
  have "layer_shape (training st2) ReLU (shape t2) = Inr [n, cmid, d - 2, h - 2, w - 2]"
    by (simp add: s2)
  from call_ok[OF this] obtain t3 st3
    where r3: "call T nm 2 ReLU t2 st2 = (([Call (Layer nm 2 ReLU) [shape t2]], Inr t3), st3)"
      and s3: "shape t3 = [n, cmid, d - 2, h - 2, w - 2]"
    by blast
  have "layer_shape (training st3) (Conv3d cmid cout 3) (shape t3) = Inr [n, cout, d - 4, h - 4, w - 4]"
    using big ch by (auto simp add: s3)
  from call_ok[OF this] obtain t4 st4
    where r4: "call T nm 3 (Conv3d cmid cout 3) t3 st3 = (([Call (Layer nm 3 (Conv3d cmid cout 3)) [shape t3]], Inr t4), st4)"
      and s4: "shape t4 = [n, cout, d - 4, h - 4, w - 4]"
    by blast
  have "layer_shape (training st4) (BatchNorm3d cout) (shape t4) = Inr [n, cout, d - 4, h - 4, w - 4]"
    using big by (simp add: s4 batch_norm_shape_ok del: batch_norm_shape.simps)
  from call_ok[OF this] obtain t5 st5
    where r5: "call T nm 4 (BatchNorm3d cout) t4 st4 = (([Call (Layer nm 4 (BatchNorm3d cout)) [shape t4]], Inr t5), st5)"
      and s5: "shape t5 = [n, cout, d - 4, h - 4, w - 4]"
    by blast
  have "layer_shape (training st5) ReLU (shape t5) = Inr [n, cout, d - 4, h - 4, w - 4]"
    by (simp add: s5)
  from call_ok[OF this] obtain t6 st6
    where r6: "call T nm 5 ReLU t5 st5 = (([Call (Layer nm 5 ReLU) [shape t5]], Inr t6), st6)"
      and s6: "shape t6 = [n, cout, d - 4, h - 4, w - 4]"
    by blast
  have "sequential T nm (double_conv cin cmid cout) x st =
     (([Call (Layer nm 0 (Conv3d cin cmid 3)) [shape x], Call (Layer nm 1 (BatchNorm3d cmid)) [shape t1],
       Call (Layer nm 2 ReLU) [shape t2], Call (Layer nm 3 (Conv3d cmid cout 3)) [shape t3],
       Call (Layer nm 4 (BatchNorm3d cout)) [shape t4], Call (Layer nm 5 ReLU) [shape t5]], Inr t6), st6)"
  proof -
    have n: "Suc 0 = 1" "Suc 1 = 2" "Suc 2 = 3" "Suc 3 = 4" "Suc 4 = 5" by simp_all
    show ?thesis
      by (simp only: sequential_def double_conv_def sequential_from.simps n thenS_def r1 r2 r3 r4 r5 r6
            returnS_def returnM_def prod.case sum.case append.simps)
  qed
  then show ?thesis using s6 by simp
qed

lemma layers_no_crop:
  "list_all is_layer tr \<Longrightarrow> filter is_crop tr = [] \<and> filter is_cat tr = []"
proof (induction tr)
  case Nil
  then show ?case by simp
next
  case (Cons e tr)
  then show ?case by (cases e rule: is_layer.cases) auto
qed

lemma crop_run:
  assumes se: "shape xe = [n, c, b1 + 2 * q1, b2 + 2 * q2, b3 + 2 * q3]"
    and sx: "shape x = [n', c', b1, b2, b3]"
  shows "\<exists>pads t. center_crop xe x =
            ([Call CenterCrop [shape xe, shape x], Call (FPad pads) [shape xe]], Inr t) \<and>
          shape t = [n, c, b1, b2, b3]"
  unfolding center_crop_5[OF se sx] by simp

lemma cat_run:
  assumes sa: "shape a = [n, ca, d, h, w]" and sb: "shape b = [n, cb, d, h, w]"
  shows "\<exists>t. torch_cat a b 1 = ([Call (TorchCat 1) [shape a, shape b]], Inr t) \<and>
          shape t = [n, ca + cb, d, h, w]"
  by (simp add: torch_cat_def logged_def sa sb)

lemma forward_body:
  fixes T :: "('a::zero, 't, 'l) torch"
  assumes net: "init ic oc = Inr net" and ic: "0 < ic"
    and s_x: "shape x = [N, ic, 8 * k1 + 92, 8 * k2 + 92, 8 * k3 + 92]"
  shows "\<exists>tr y st'.
           forward T net x st = prepend tr (call T ''outconv'' 0 (Conv3d 64 oc 1) y st') \<and>
           shape y = [N, 64, 8 * k1 + 4, 8 * k2 + 4, 8 * k3 + 4] \<and>
           filter is_crop tr =
             [Call CenterCrop [[N, 256, 2 * k1 + 16, 2 * k2 + 16, 2 * k3 + 16], [N, 512, 2 * k1 + 8, 2 * k2 + 8, 2 * k3 + 8]],
              Call CenterCrop [[N, 128, 4 * k1 + 40, 4 * k2 + 40, 4 * k3 + 40], [N, 256, 4 * k1 + 8, 4 * k2 + 8, 4 * k3 + 8]],
              Call CenterCrop [[N, 64, 8 * k1 + 88, 8 * k2 + 88, 8 * k3 + 88], [N, 128, 8 * k1 + 8, 8 * k2 + 8, 8 * k3 + 8]]] \<and>
           filter is_cat tr =
             [Call (TorchCat 1) [[N, 256, 2 * k1 + 8, 2 * k2 + 8, 2 * k3 + 8], [N, 512, 2 * k1 + 8, 2 * k2 + 8, 2 * k3 + 8]],
              Call (TorchCat 1) [[N, 128, 4 * k1 + 8, 4 * k2 + 8, 4 * k3 + 8], [N, 256, 4 * k1 + 8, 4 * k2 + 8, 4 * k3 + 8]],
              Call (TorchCat 1) [[N, 64, 8 * k1 + 8, 8 * k2 + 8, 8 * k3 + 8], [N, 128, 8 * k1 + 8, 8 * k2 + 8, 8 * k3 + 8]]] \<and>
           take 3 (map callee_of tr) =
             [Layer ''encoder_conv1'' 0 (Conv3d ic 32 3), Layer ''encoder_conv1'' 1 (BatchNorm3d 32),
              Layer ''encoder_conv1'' 2 ReLU]"
proof -
  have fields: "encoder_conv1 net = double_conv ic 32 64" "encoder_conv2 net = double_conv 64 64 128"
    "encoder_conv3 net = double_conv 128 128 256" "encoder_conv4 net = double_conv 256 256 512"
    "decoder_conv1 net = double_conv 768 256 256" "decoder_conv2 net = double_conv 384 128 128"
    "decoder_conv3 net = double_conv 192 64 64" "maxpool net = MaxPool3d 2"
    "upconv1 net = ConvTranspose3d 512 512 2 2" "upconv2 net = ConvTranspose3d 256 256 2 2"
    "upconv3 net = ConvTranspose3d 128 128 2 2" "outconv net = Conv3d 64 oc 1"
    using net unfolding init_eq by auto
  have x1_big: "6 \<le> 8 * k1 + 92" "5 \<le> 8 * k2 + 92" "5 \<le> 8 * k3 + 92" by simp_all
  have "\<exists>tr t st'. sequential T ''encoder_conv1'' (double_conv ic 32 64) x st = ((tr, Inr t), st') \<and> shape t = [N, 64, 8 * k1 + 88, 8 * k2 + 88, 8 * k3 + 88] \<and> list_all is_layer tr \<and> map callee_of tr = [Layer ''encoder_conv1'' 0 (Conv3d ic 32 3), Layer ''encoder_conv1'' 1 (BatchNorm3d 32), Layer ''encoder_conv1'' 2 ReLU, Layer ''encoder_conv1'' 3 (Conv3d 32 64 3), Layer ''encoder_conv1'' 4 (BatchNorm3d 64), Layer ''encoder_conv1'' 5 ReLU]"
    using block_ok[OF s_x x1_big, where cmid = 32 and cout = 64 and T = T and nm = "''encoder_conv1''" and st = st] ic by (simp add: algebra_simps)
  then obtain tr_x1 x1 st_x1
    where r_x1: "sequential T ''encoder_conv1'' (double_conv ic 32 64) x st = ((tr_x1, Inr x1), st_x1)"
      and s_x1: "shape x1 = [N, 64, 8 * k1 + 88, 8 * k2 + 88, 8 * k3 + 88]"
      and l_x1: "list_all is_layer tr_x1"
      and e_x1: "map callee_of tr_x1 = [Layer ''encoder_conv1'' 0 (Conv3d ic 32 3), Layer ''encoder_conv1'' 1 (BatchNorm3d 32), Layer ''encoder_conv1'' 2 ReLU, Layer ''encoder_conv1'' 3 (Conv3d 32 64 3), Layer ''encoder_conv1'' 4 (BatchNorm3d 64), Layer ''encoder_conv1'' 5 ReLU]"
    by (elim exE conjE) (rule that)
  have "layer_shape (training st_x1) (MaxPool3d 2) (shape x1) = Inr [N, 64, 4 * k1 + 44, 4 * k2 + 44, 4 * k3 + 44]"
    by (simp add: s_x1 algebra_simps)
  from call_ok[OF this, of T "''maxpool''" 0] obtain p1 st_p1
    where r_p1: "call T ''maxpool'' 0 (MaxPool3d 2) x1 st_x1 = (([Call (Layer ''maxpool'' 0 (MaxPool3d 2)) [shape x1]], Inr p1), st_p1)"
      and s_p1: "shape p1 = [N, 64, 4 * k1 + 44, 4 * k2 + 44, 4 * k3 + 44]"
    by blast
  have x2_big: "6 \<le> 4 * k1 + 44" "5 \<le> 4 * k2 + 44" "5 \<le> 4 * k3 + 44" by simp_all
  have "\<exists>tr t st'. sequential T ''encoder_conv2'' (double_conv 64 64 128) p1 st_p1 = ((tr, Inr t), st') \<and> shape t = [N, 128, 4 * k1 + 40, 4 * k2 + 40, 4 * k3 + 40] \<and> list_all is_layer tr \<and> map callee_of tr = [Layer ''encoder_conv2'' 0 (Conv3d 64 64 3), Layer ''encoder_conv2'' 1 (BatchNorm3d 64), Layer ''encoder_conv2'' 2 ReLU, Layer ''encoder_conv2'' 3 (Conv3d 64 128 3), Layer ''encoder_conv2'' 4 (BatchNorm3d 128), Layer ''encoder_conv2'' 5 ReLU]"
    using block_ok[OF s_p1 x2_big, where cmid = 64 and cout = 128 and T = T and nm = "''encoder_conv2''" and st = st_p1]  by (simp add: algebra_simps)
  then obtain tr_x2 x2 st_x2
    where r_x2: "sequential T ''encoder_conv2'' (double_conv 64 64 128) p1 st_p1 = ((tr_x2, Inr x2), st_x2)"
      and s_x2: "shape x2 = [N, 128, 4 * k1 + 40, 4 * k2 + 40, 4 * k3 + 40]"
      and l_x2: "list_all is_layer tr_x2"
      and e_x2: "map callee_of tr_x2 = [Layer ''encoder_conv2'' 0 (Conv3d 64 64 3), Layer ''encoder_conv2'' 1 (BatchNorm3d 64), Layer ''encoder_conv2'' 2 ReLU, Layer ''encoder_conv2'' 3 (Conv3d 64 128 3), Layer ''encoder_conv2'' 4 (BatchNorm3d 128), Layer ''encoder_conv2'' 5 ReLU]"
    by (elim exE conjE) (rule that)
  have "layer_shape (training st_x2) (MaxPool3d 2) (shape x2) = Inr [N, 128, 2 * k1 + 20, 2 * k2 + 20, 2 * k3 + 20]"
    by (simp add: s_x2 algebra_simps)
  from call_ok[OF this, of T "''maxpool''" 0] obtain p2 st_p2
    where r_p2: "call T ''maxpool'' 0 (MaxPool3d 2) x2 st_x2 = (([Call (Layer ''maxpool'' 0 (MaxPool3d 2)) [shape x2]], Inr p2), st_p2)"
      and s_p2: "shape p2 = [N, 128, 2 * k1 + 20, 2 * k2 + 20, 2 * k3 + 20]"
    by blast
  have x3_big: "6 \<le> 2 * k1 + 20" "5 \<le> 2 * k2 + 20" "5 \<le> 2 * k3 + 20" by simp_all
  have "\<exists>tr t st'. sequential T ''encoder_conv3'' (double_conv 128 128 256) p2 st_p2 = ((tr, Inr t), st') \<and> shape t = [N, 256, 2 * k1 + 16, 2 * k2 + 16, 2 * k3 + 16] \<and> list_all is_layer tr \<and> map callee_of tr = [Layer ''encoder_conv3'' 0 (Conv3d 128 128 3), Layer ''encoder_conv3'' 1 (BatchNorm3d 128), Layer ''encoder_conv3'' 2 ReLU, Layer ''encoder_conv3'' 3 (Conv3d 128 256 3), Layer ''encoder_conv3'' 4 (BatchNorm3d 256), Layer ''encoder_conv3'' 5 ReLU]"
    using block_ok[OF s_p2 x3_big, where cmid = 128 and cout = 256 and T = T and nm = "''encoder_conv3''" and st = st_p2]  by (simp add: algebra_simps)
  then obtain tr_x3 x3 st_x3
    where r_x3: "sequential T ''encoder_conv3'' (double_conv 128 128 256) p2 st_p2 = ((tr_x3, Inr x3), st_x3)"
      and s_x3: "shape x3 = [N, 256, 2 * k1 + 16, 2 * k2 + 16, 2 * k3 + 16]"
      and l_x3: "list_all is_layer tr_x3"
      and e_x3: "map callee_of tr_x3 = [Layer ''encoder_conv3'' 0 (Conv3d 128 128 3), Layer ''encoder_conv3'' 1 (BatchNorm3d 128), Layer ''encoder_conv3'' 2 ReLU, Layer ''encoder_conv3'' 3 (Conv3d 128 256 3), Layer ''encoder_conv3'' 4 (BatchNorm3d 256), Layer ''encoder_conv3'' 5 ReLU]"
    by (elim exE conjE) (rule that)
  have "layer_shape (training st_x3) (MaxPool3d 2) (shape x3) = Inr [N, 256, k1 + 8, k2 + 8, k3 + 8]"
    by (simp add: s_x3 algebra_simps)
  from call_ok[OF this, of T "''maxpool''" 0] obtain p3 st_p3
    where r_p3: "call T ''maxpool'' 0 (MaxPool3d 2) x3 st_x3 = (([Call (Layer ''maxpool'' 0 (MaxPool3d 2)) [shape x3]], Inr p3), st_p3)"
      and s_p3: "shape p3 = [N, 256, k1 + 8, k2 + 8, k3 + 8]"
    by blast
  have x4_big: "6 \<le> k1 + 8" "5 \<le> k2 + 8" "5 \<le> k3 + 8" by simp_all
  have "\<exists>tr t st'. sequential T ''encoder_conv4'' (double_conv 256 256 512) p3 st_p3 = ((tr, Inr t), st') \<and> shape t = [N, 512, k1 + 4, k2 + 4, k3 + 4] \<and> list_all is_layer tr \<and> map callee_of tr = [Layer ''encoder_conv4'' 0 (Conv3d 256 256 3), Layer ''encoder_conv4'' 1 (BatchNorm3d 256), Layer ''encoder_conv4'' 2 ReLU, Layer ''encoder_conv4'' 3 (Conv3d 256 512 3), Layer ''encoder_conv4'' 4 (BatchNorm3d 512), Layer ''encoder_conv4'' 5 ReLU]"
    using block_ok[OF s_p3 x4_big, where cmid = 256 and cout = 512 and T = T and nm = "''encoder_conv4''" and st = st_p3]  by (simp add: algebra_simps)
  then obtain tr_x4 x4 st_x4
    where r_x4: "sequential T ''encoder_conv4'' (double_conv 256 256 512) p3 st_p3 = ((tr_x4, Inr x4), st_x4)"
      and s_x4: "shape x4 = [N, 512, k1 + 4, k2 + 4, k3 + 4]"
      and l_x4: "list_all is_layer tr_x4"
      and e_x4: "map callee_of tr_x4 = [Layer ''encoder_conv4'' 0 (Conv3d 256 256 3), Layer ''encoder_conv4'' 1 (BatchNorm3d 256), Layer ''encoder_conv4'' 2 ReLU, Layer ''encoder_conv4'' 3 (Conv3d 256 512 3), Layer ''encoder_conv4'' 4 (BatchNorm3d 512), Layer ''encoder_conv4'' 5 ReLU]"
    by (elim exE conjE) (rule that)
  have "layer_shape (training st_x4) (ConvTranspose3d 512 512 2 2) (shape x4) = Inr [N, 512, 2 * k1 + 8, 2 * k2 + 8, 2 * k3 + 8]"
    by (simp add: s_x4 algebra_simps)
  from call_ok[OF this, of T "''upconv1''" 0] obtain u1 st_u1
    where r_u1: "call T ''upconv1'' 0 (ConvTranspose3d 512 512 2 2) x4 st_x4 = (([Call (Layer ''upconv1'' 0 (ConvTranspose3d 512 512 2 2)) [shape x4]], Inr u1), st_u1)"
      and s_u1: "shape u1 = [N, 512, 2 * k1 + 8, 2 * k2 + 8, 2 * k3 + 8]"
    by blast
  have "\<exists>pads t. center_crop x3 u1 = ([Call CenterCrop [shape x3, shape u1], Call (FPad pads) [shape x3]], Inr t) \<and> shape t = [N, 256, 2 * k1 + 8, 2 * k2 + 8, 2 * k3 + 8]"
    by (rule crop_run[OF _ s_u1]) (simp add: s_x3)
  then obtain pads_c1 c1
    where r_c1: "center_crop x3 u1 = ([Call CenterCrop [shape x3, shape u1], Call (FPad pads_c1) [shape x3]], Inr c1)"
      and s_c1: "shape c1 = [N, 256, 2 * k1 + 8, 2 * k2 + 8, 2 * k3 + 8]"
    by blast
  have "\<exists>t. torch_cat c1 u1 1 = ([Call (TorchCat 1) [shape c1, shape u1]], Inr t) \<and> shape t = [N, 768, 2 * k1 + 8, 2 * k2 + 8, 2 * k3 + 8]"
    using cat_run[OF s_c1 s_u1] by simp
  then obtain j1
    where r_j1: "torch_cat c1 u1 1 = ([Call (TorchCat 1) [shape c1, shape u1]], Inr j1)"
      and s_j1: "shape j1 = [N, 768, 2 * k1 + 8, 2 * k2 + 8, 2 * k3 + 8]"
    by blast
  have y1_big: "6 \<le> 2 * k1 + 8" "5 \<le> 2 * k2 + 8" "5 \<le> 2 * k3 + 8" by simp_all
  have "\<exists>tr t st'. sequential T ''decoder_conv1'' (double_conv 768 256 256) j1 st_u1 = ((tr, Inr t), st') \<and> shape t = [N, 256, 2 * k1 + 4, 2 * k2 + 4, 2 * k3 + 4] \<and> list_all is_layer tr \<and> map callee_of tr = [Layer ''decoder_conv1'' 0 (Conv3d 768 256 3), Layer ''decoder_conv1'' 1 (BatchNorm3d 256), Layer ''decoder_conv1'' 2 ReLU, Layer ''decoder_conv1'' 3 (Conv3d 256 256 3), Layer ''decoder_conv1'' 4 (BatchNorm3d 256), Layer ''decoder_conv1'' 5 ReLU]"
    using block_ok[OF s_j1 y1_big, where cmid = 256 and cout = 256 and T = T and nm = "''decoder_conv1''" and st = st_u1]  by (simp add: algebra_simps)
  then obtain tr_y1 y1 st_y1
    where r_y1: "sequential T ''decoder_conv1'' (double_conv 768 256 256) j1 st_u1 = ((tr_y1, Inr y1), st_y1)"
      and s_y1: "shape y1 = [N, 256, 2 * k1 + 4, 2 * k2 + 4, 2 * k3 + 4]"
      and l_y1: "list_all is_layer tr_y1"
      and e_y1: "map callee_of tr_y1 = [Layer ''decoder_conv1'' 0 (Conv3d 768 256 3), Layer ''decoder_conv1'' 1 (BatchNorm3d 256), Layer ''decoder_conv1'' 2 ReLU, Layer ''decoder_conv1'' 3 (Conv3d 256 256 3), Layer ''decoder_conv1'' 4 (BatchNorm3d 256), Layer ''decoder_conv1'' 5 ReLU]"
    by (elim exE conjE) (rule that)
  have "layer_shape (training st_y1) (ConvTranspose3d 256 256 2 2) (shape y1) = Inr [N, 256, 4 * k1 + 8, 4 * k2 + 8, 4 * k3 + 8]"
    by (simp add: s_y1 algebra_simps)
  from call_ok[OF this, of T "''upconv2''" 0] obtain u2 st_u2
    where r_u2: "call T ''upconv2'' 0 (ConvTranspose3d 256 256 2 2) y1 st_y1 = (([Call (Layer ''upconv2'' 0 (ConvTranspose3d 256 256 2 2)) [shape y1]], Inr u2), st_u2)"
      and s_u2: "shape u2 = [N, 256, 4 * k1 + 8, 4 * k2 + 8, 4 * k3 + 8]"
    by blast
  have "\<exists>pads t. center_crop x2 u2 = ([Call CenterCrop [shape x2, shape u2], Call (FPad pads) [shape x2]], Inr t) \<and> shape t = [N, 128, 4 * k1 + 8, 4 * k2 + 8, 4 * k3 + 8]"
    by (rule crop_run[OF _ s_u2]) (simp add: s_x2)
  then obtain pads_c2 c2
    where r_c2: "center_crop x2 u2 = ([Call CenterCrop [shape x2, shape u2], Call (FPad pads_c2) [shape x2]], Inr c2)"
      and s_c2: "shape c2 = [N, 128, 4 * k1 + 8, 4 * k2 + 8, 4 * k3 + 8]"
    by blast
  have "\<exists>t. torch_cat c2 u2 1 = ([Call (TorchCat 1) [shape c2, shape u2]], Inr t) \<and> shape t = [N, 384, 4 * k1 + 8, 4 * k2 + 8, 4 * k3 + 8]"
    using cat_run[OF s_c2 s_u2] by simp
  then obtain j2
    where r_j2: "torch_cat c2 u2 1 = ([Call (TorchCat 1) [shape c2, shape u2]], Inr j2)"
      and s_j2: "shape j2 = [N, 384, 4 * k1 + 8, 4 * k2 + 8, 4 * k3 + 8]"
    by blast
  have y2_big: "6 \<le> 4 * k1 + 8" "5 \<le> 4 * k2 + 8" "5 \<le> 4 * k3 + 8" by simp_all
  have "\<exists>tr t st'. sequential T ''decoder_conv2'' (double_conv 384 128 128) j2 st_u2 = ((tr, Inr t), st') \<and> shape t = [N, 128, 4 * k1 + 4, 4 * k2 + 4, 4 * k3 + 4] \<and> list_all is_layer tr \<and> map callee_of tr = [Layer ''decoder_conv2'' 0 (Conv3d 384 128 3), Layer ''decoder_conv2'' 1 (BatchNorm3d 128), Layer ''decoder_conv2'' 2 ReLU, Layer ''decoder_conv2'' 3 (Conv3d 128 128 3), Layer ''decoder_conv2'' 4 (BatchNorm3d 128), Layer ''decoder_conv2'' 5 ReLU]"
    using block_ok[OF s_j2 y2_big, where cmid = 128 and cout = 128 and T = T and nm = "''decoder_conv2''" and st = st_u2]  by (simp add: algebra_simps)
  then obtain tr_y2 y2 st_y2
    where r_y2: "sequential T ''decoder_conv2'' (double_conv 384 128 128) j2 st_u2 = ((tr_y2, Inr y2), st_y2)"
      and s_y2: "shape y2 = [N, 128, 4 * k1 + 4, 4 * k2 + 4, 4 * k3 + 4]"
      and l_y2: "list_all is_layer tr_y2"
      and e_y2: "map callee_of tr_y2 = [Layer ''decoder_conv2'' 0 (Conv3d 384 128 3), Layer ''decoder_conv2'' 1 (BatchNorm3d 128), Layer ''decoder_conv2'' 2 ReLU, Layer ''decoder_conv2'' 3 (Conv3d 128 128 3), Layer ''decoder_conv2'' 4 (BatchNorm3d 128), Layer ''decoder_conv2'' 5 ReLU]"
    by (elim exE conjE) (rule that)
  have "layer_shape (training st_y2) (ConvTranspose3d 128 128 2 2) (shape y2) = Inr [N, 128, 8 * k1 + 8, 8 * k2 + 8, 8 * k3 + 8]"
    by (simp add: s_y2 algebra_simps)
  from call_ok[OF this, of T "''upconv3''" 0] obtain u3 st_u3
    where r_u3: "call T ''upconv3'' 0 (ConvTranspose3d 128 128 2 2) y2 st_y2 = (([Call (Layer ''upconv3'' 0 (ConvTranspose3d 128 128 2 2)) [shape y2]], Inr u3), st_u3)"
      and s_u3: "shape u3 = [N, 128, 8 * k1 + 8, 8 * k2 + 8, 8 * k3 + 8]"
    by blast
  have "\<exists>pads t. center_crop x1 u3 = ([Call CenterCrop [shape x1, shape u3], Call (FPad pads) [shape x1]], Inr t) \<and> shape t = [N, 64, 8 * k1 + 8, 8 * k2 + 8, 8 * k3 + 8]"
    by (rule crop_run[OF _ s_u3]) (simp add: s_x1)
  then obtain pads_c3 c3
    where r_c3: "center_crop x1 u3 = ([Call CenterCrop [shape x1, shape u3], Call (FPad pads_c3) [shape x1]], Inr c3)"
      and s_c3: "shape c3 = [N, 64, 8 * k1 + 8, 8 * k2 + 8, 8 * k3 + 8]"
    by blast
  have "\<exists>t. torch_cat c3 u3 1 = ([Call (TorchCat 1) [shape c3, shape u3]], Inr t) \<and> shape t = [N, 192, 8 * k1 + 8, 8 * k2 + 8, 8 * k3 + 8]"
    using cat_run[OF s_c3 s_u3] by simp
  then obtain j3
    where r_j3: "torch_cat c3 u3 1 = ([Call (TorchCat 1) [shape c3, shape u3]], Inr j3)"
      and s_j3: "shape j3 = [N, 192, 8 * k1 + 8, 8 * k2 + 8, 8 * k3 + 8]"
    by blast
  have y3_big: "6 \<le> 8 * k1 + 8" "5 \<le> 8 * k2 + 8" "5 \<le> 8 * k3 + 8" by simp_all
  have "\<exists>tr t st'. sequential T ''decoder_conv3'' (double_conv 192 64 64) j3 st_u3 = ((tr, Inr t), st') \<and> shape t = [N, 64, 8 * k1 + 4, 8 * k2 + 4, 8 * k3 + 4] \<and> list_all is_layer tr \<and> map callee_of tr = [Layer ''decoder_conv3'' 0 (Conv3d 192 64 3), Layer ''decoder_conv3'' 1 (BatchNorm3d 64), Layer ''decoder_conv3'' 2 ReLU, Layer ''decoder_conv3'' 3 (Conv3d 64 64 3), Layer ''decoder_conv3'' 4 (BatchNorm3d 64), Layer ''decoder_conv3'' 5 ReLU]"
    using block_ok[OF s_j3 y3_big, where cmid = 64 and cout = 64 and T = T and nm = "''decoder_conv3''" and st = st_u3]  by (simp add: algebra_simps)
  then obtain tr_y3 y3 st_y3
    where r_y3: "sequential T ''decoder_conv3'' (double_conv 192 64 64) j3 st_u3 = ((tr_y3, Inr y3), st_y3)"
      and s_y3: "shape y3 = [N, 64, 8 * k1 + 4, 8 * k2 + 4, 8 * k3 + 4]"
      and l_y3: "list_all is_layer tr_y3"
      and e_y3: "map callee_of tr_y3 = [Layer ''decoder_conv3'' 0 (Conv3d 192 64 3), Layer ''decoder_conv3'' 1 (BatchNorm3d 64), Layer ''decoder_conv3'' 2 ReLU, Layer ''decoder_conv3'' 3 (Conv3d 64 64 3), Layer ''decoder_conv3'' 4 (BatchNorm3d 64), Layer ''decoder_conv3'' 5 ReLU]"
    by (elim exE conjE) (rule that)
  let ?tr = "tr_x1 @
        [Call (Layer ''maxpool'' 0 (MaxPool3d 2)) [shape x1]] @
        tr_x2 @
        [Call (Layer ''maxpool'' 0 (MaxPool3d 2)) [shape x2]] @
        tr_x3 @
        [Call (Layer ''maxpool'' 0 (MaxPool3d 2)) [shape x3]] @
        tr_x4 @
        [Call (Layer ''upconv1'' 0 (ConvTranspose3d 512 512 2 2)) [shape x4]] @
        [Call CenterCrop [shape x3, shape u1], Call (FPad pads_c1) [shape x3]] @
        [Call (TorchCat 1) [shape c1, shape u1]] @
        tr_y1 @
        [Call (Layer ''upconv2'' 0 (ConvTranspose3d 256 256 2 2)) [shape y1]] @
        [Call CenterCrop [shape x2, shape u2], Call (FPad pads_c2) [shape x2]] @
        [Call (TorchCat 1) [shape c2, shape u2]] @
        tr_y2 @
        [Call (Layer ''upconv3'' 0 (ConvTranspose3d 128 128 2 2)) [shape y2]] @
        [Call CenterCrop [shape x1, shape u3], Call (FPad pads_c3) [shape x1]] @
        [Call (TorchCat 1) [shape c3, shape u3]] @
        tr_y3"
  have run: "forward T net x st = prepend ?tr (call T ''outconv'' 0 (Conv3d 64 oc 1) y3 st_y3)"
    unfolding forward_def fields thenS_returnS_right
    by (simp only: thenS_prepend liftS_def r_x1 r_p1 r_x2 r_p2 r_x3 r_p3 r_x4 r_u1 r_c1 r_j1 r_y1 r_u2 r_c2 r_j2 r_y2 r_u3 r_c3 r_j3 r_y3 prod.case sum.case prepend_prepend append_assoc)
  have nc: "filter is_crop tr_x1 = []" "filter is_cat tr_x1 = []" "filter is_crop tr_x2 = []" "filter is_cat tr_x2 = []" "filter is_crop tr_x3 = []" "filter is_cat tr_x3 = []" "filter is_crop tr_x4 = []" "filter is_cat tr_x4 = []" "filter is_crop tr_y1 = []" "filter is_cat tr_y1 = []" "filter is_crop tr_y2 = []" "filter is_cat tr_y2 = []" "filter is_crop tr_y3 = []" "filter is_cat tr_y3 = []"
    using l_x1 l_x2 l_x3 l_x4 l_y1 l_y2 l_y3 by (simp_all add: layers_no_crop)
  have first: "take 3 (map callee_of ?tr) =
             [Layer ''encoder_conv1'' 0 (Conv3d ic 32 3), Layer ''encoder_conv1'' 1 (BatchNorm3d 32),
              Layer ''encoder_conv1'' 2 ReLU]"
    by (simp add: e_x1)
  show ?thesis
    apply (rule exI[of _ ?tr], rule exI[of _ y3], rule exI[of _ st_y3])
    apply (intro conjI)
        apply (rule run)
       apply (rule s_y3)
      apply (simp add: nc s_x3 s_u1 s_x2 s_u2 s_x1 s_u3)
     apply (simp add: nc s_c1 s_u1 s_c2 s_u2 s_c3 s_u3)
    apply (rule first)
    done
qed

lemma forward_run:
  fixes T :: "('a::zero, 't, 'l) torch"
  assumes net: "init ic oc = Inr net" and ic: "0 < ic" and oc: "0 < oc"
    and s_x: "shape x = [N, ic, 8 * k1 + 92, 8 * k2 + 92, 8 * k3 + 92]"
  shows "\<exists>tr t st'. forward T net x st = ((tr, Inr t), st') \<and>
           shape t = [N, oc, 8 * k1 + 4, 8 * k2 + 4, 8 * k3 + 4] \<and>
           filter is_crop tr =
             [Call CenterCrop [[N, 256, 2 * k1 + 16, 2 * k2 + 16, 2 * k3 + 16], [N, 512, 2 * k1 + 8, 2 * k2 + 8, 2 * k3 + 8]],
              Call CenterCrop [[N, 128, 4 * k1 + 40, 4 * k2 + 40, 4 * k3 + 40], [N, 256, 4 * k1 + 8, 4 * k2 + 8, 4 * k3 + 8]],
              Call CenterCrop [[N, 64, 8 * k1 + 88, 8 * k2 + 88, 8 * k3 + 88], [N, 128, 8 * k1 + 8, 8 * k2 + 8, 8 * k3 + 8]]] \<and>
           filter is_cat tr =
             [Call (TorchCat 1) [[N, 256, 2 * k1 + 8, 2 * k2 + 8, 2 * k3 + 8], [N, 512, 2 * k1 + 8, 2 * k2 + 8, 2 * k3 + 8]],
              Call (TorchCat 1) [[N, 128, 4 * k1 + 8, 4 * k2 + 8, 4 * k3 + 8], [N, 256, 4 * k1 + 8, 4 * k2 + 8, 4 * k3 + 8]],
              Call (TorchCat 1) [[N, 64, 8 * k1 + 8, 8 * k2 + 8, 8 * k3 + 8], [N, 128, 8 * k1 + 8, 8 * k2 + 8, 8 * k3 + 8]]] \<and>
           take 3 (map callee_of tr) =
             [Layer ''encoder_conv1'' 0 (Conv3d ic 32 3), Layer ''encoder_conv1'' 1 (BatchNorm3d 32),
              Layer ''encoder_conv1'' 2 ReLU]"
proof -
  from forward_body[OF net ic s_x, of T st] obtain tr y st1
    where run: "forward T net x st = prepend tr (call T ''outconv'' 0 (Conv3d 64 oc 1) y st1)"
      and s_y: "shape y = [N, 64, 8 * k1 + 4, 8 * k2 + 4, 8 * k3 + 4]"
      and crops: "filter is_crop tr =
             [Call CenterCrop [[N, 256, 2 * k1 + 16, 2 * k2 + 16, 2 * k3 + 16], [N, 512, 2 * k1 + 8, 2 * k2 + 8, 2 * k3 + 8]],
              Call CenterCrop [[N, 128, 4 * k1 + 40, 4 * k2 + 40, 4 * k3 + 40], [N, 256, 4 * k1 + 8, 4 * k2 + 8, 4 * k3 + 8]],
              Call CenterCrop [[N, 64, 8 * k1 + 88, 8 * k2 + 88, 8 * k3 + 88], [N, 128, 8 * k1 + 8, 8 * k2 + 8, 8 * k3 + 8]]]"
      and cats: "filter is_cat tr =
             [Call (TorchCat 1) [[N, 256, 2 * k1 + 8, 2 * k2 + 8, 2 * k3 + 8], [N, 512, 2 * k1 + 8, 2 * k2 + 8, 2 * k3 + 8]],
              Call (TorchCat 1) [[N, 128, 4 * k1 + 8, 4 * k2 + 8, 4 * k3 + 8], [N, 256, 4 * k1 + 8, 4 * k2 + 8, 4 * k3 + 8]],
              Call (TorchCat 1) [[N, 64, 8 * k1 + 8, 8 * k2 + 8, 8 * k3 + 8], [N, 128, 8 * k1 + 8, 8 * k2 + 8, 8 * k3 + 8]]]"
      and first: "take 3 (map callee_of tr) =
             [Layer ''encoder_conv1'' 0 (Conv3d ic 32 3), Layer ''encoder_conv1'' 1 (BatchNorm3d 32),
              Layer ''encoder_conv1'' 2 ReLU]"
    by blast
  have "layer_shape (training st1) (Conv3d 64 oc 1) (shape y) = Inr [N, oc, 8 * k1 + 4, 8 * k2 + 4, 8 * k3 + 4]"
    using oc by (simp add: s_y)
  from call_ok[OF this, of T "''outconv''" 0] obtain z st2
    where r_z: "call T ''outconv'' 0 (Conv3d 64 oc 1) y st1 =
                  (([Call (Layer ''outconv'' 0 (Conv3d 64 oc 1)) [shape y]], Inr z), st2)"
      and s_z: "shape z = [N, oc, 8 * k1 + 4, 8 * k2 + 4, 8 * k3 + 4]"
    by blast
  have len: "3 \<le> length tr"
    using arg_cong[OF first, of length] by simp
  let ?tr = "tr @ [Call (Layer ''outconv'' 0 (Conv3d 64 oc 1)) [shape y]]"
  have eq: "forward T net x st = ((?tr, Inr z), st2)"
    unfolding run r_z by (simp only: prepend_result)
  have c: "filter is_crop ?tr = filter is_crop tr" "filter is_cat ?tr = filter is_cat tr"
    by simp_all
  have f: "take 3 (map callee_of ?tr) = take 3 (map callee_of tr)"
    using len by simp
  show ?thesis
    apply (rule exI[of _ ?tr], rule exI[of _ z], rule exI[of _ st2])
    apply (intro conjI)
        apply (rule eq)
       apply (rule s_z)
      apply (simp only: c crops)
     apply (simp only: c cats)
    apply (simp only: f first)
    done
qed

lemma crop_ok_filter: "list_all crop_ok (filter is_crop tr) \<Longrightarrow> list_all crop_ok tr"
proof (induction tr)
  case Nil
  then show ?case by simp
next
  case (Cons e tr)
  then show ?case by (cases e rule: is_crop.cases) auto
qed

lemma cat_ok_filter: "list_all cat_ok (filter is_cat tr) \<Longrightarrow> list_all cat_ok tr"
proof (induction tr)
  case Nil
  then show ?case by simp
next
  case (Cons e tr)
  then show ?case by (cases e rule: is_cat.cases) auto
qed

lemmas run_simps =
  build_and_forward_def init_eq forward_def sequential_def double_conv_def thenS_def liftS_def
  returnS_def call_def logged_def zeros_def returnM_def liftE_def center_crop_def crop_amount_def
  item_def bindE_def F_pad_5 torch_cat_def Let_def fresh_def count_batch_def remember_def

lemma build_and_forward_eq:
  "init ic oc = Inr net \<Longrightarrow> build_and_forward T ic oc x st = forward T net x st"
  by (simp add: build_and_forward_def thenS_def liftS_def liftE_def split: prod.splits sum.splits)

text \<open>
  C2 as stated fails: a network built with no input channels or with no output channels
  meets the claim's conditions on a 92-cubed input, and \<open>forward\<close> raises RuntimeError in
  its first and in its last convolution.
\<close>

theorem zero_channels_counterexample:
  "snd (fst (build_and_forward torch0 0 2 (zeros [1, 0, 92, 92, 92]) fresh)) = Inl RuntimeError \<and>
   snd (fst (build_and_forward torch0 1 0 (zeros [1, 1, 92, 92, 92]) fresh)) = Inl RuntimeError"
proof
  show "snd (fst (build_and_forward torch0 0 2 (zeros [1, 0, 92, 92, 92]) fresh)) = Inl RuntimeError"
    by (simp add: run_simps)
next
  let ?x = "zeros [1, 1, 92, 92, 92] :: int tensor"
  obtain net where net: "init 1 0 = Inr net" by (simp add: init_eq)
  have "shape ?x = [1, 1, 8 * 0 + 92, 8 * 0 + 92, 8 * 0 + 92]" by (simp add: zeros_def)
  from forward_body[OF net _ this, of torch0 fresh] obtain tr y st1
    where run: "forward torch0 net ?x fresh = prepend tr (call torch0 ''outconv'' 0 (Conv3d 64 0 1) y st1)"
      and s_y: "shape y = [1, 64, 8 * 0 + 4, 8 * 0 + 4, 8 * 0 + 4]"
    by auto
  have "layer_shape (training st1) (Conv3d 64 0 1) (shape y) = Inl RuntimeError"
    by (simp add: s_y)
  from call_fail[OF this, of torch0 "''outconv''" 0] obtain st2
    where "call torch0 ''outconv'' 0 (Conv3d 64 0 1) y st1 =
             (([Call (Layer ''outconv'' 0 (Conv3d 64 0 1)) [shape y]], Inl RuntimeError), st2)"
    by blast
  then have "snd (fst (forward torch0 net ?x fresh)) = Inl RuntimeError"
    unfolding run by (simp only: prepend_result fst_conv snd_conv)
  then show "snd (fst (build_and_forward torch0 1 0 ?x fresh)) = Inl RuntimeError"
    by (simp only: build_and_forward_eq[OF net])
qed

text \<open>
  C2 (amended): for a network with at least one input and one output channel, on an
  input of shape \<open>(N, in_channels, d1, d2, d3)\<close> whose spatial sizes are all congruent to
  4 modulo 8 and at least 92, \<open>forward\<close> returns a tensor of shape
  \<open>(N, out_channels, d1 - 88, d2 - 88, d3 - 88)\<close>, from any layer state; it calls
  \<open>center_crop\<close> three times, each time with a non-negative even size difference in every
  spatial dimension, and \<open>torch.cat\<close> three times, each time on tensors that agree outside
  dimension 1.
\<close>

theorem forward_on_valid_sizes:
  fixes T :: "('a::zero, 't, 'l) torch"
  assumes net: "init in_ch out_ch = Inr net"
    and channels: "1 \<le> in_ch" "1 \<le> out_ch"
    and sx: "shape x = [N, in_ch, d1, d2, d3]"
    and sizes: "\<forall>d\<in>{d1, d2, d3}. d mod 8 = 4 \<and> 92 \<le> d"
  shows "\<exists>tr t st'. forward T net x st = ((tr, Inr t), st') \<and>
           shape t = [N, out_ch, d1 - 88, d2 - 88, d3 - 88] \<and>
           list_all crop_ok tr \<and> length (filter is_crop tr) = 3 \<and>
           list_all cat_ok tr \<and> length (filter is_cat tr) = 3"
proof -
  have param: "\<exists>k. d = 8 * k + 92" if "d mod 8 = 4" "92 \<le> d" for d :: nat
  proof -
    from that have "d = 8 * ((d - 92) div 8) + 92" by presburger
    then show ?thesis ..
  qed
  from sizes obtain k1 k2 k3 where k: "d1 = 8 * k1 + 92" "d2 = 8 * k2 + 92" "d3 = 8 * k3 + 92"
    using param[of d1] param[of d2] param[of d3] by auto
  from channels have pos: "0 < in_ch" "0 < out_ch" by simp_all
  from forward_run[OF net pos sx[unfolded k], of T st] obtain tr t st'
    where run: "forward T net x st = ((tr, Inr t), st')"
      and st: "shape t = [N, out_ch, 8 * k1 + 4, 8 * k2 + 4, 8 * k3 + 4]"
      and crops: "filter is_crop tr =
             [Call CenterCrop [[N, 256, 2 * k1 + 16, 2 * k2 + 16, 2 * k3 + 16], [N, 512, 2 * k1 + 8, 2 * k2 + 8, 2 * k3 + 8]],
              Call CenterCrop [[N, 128, 4 * k1 + 40, 4 * k2 + 40, 4 * k3 + 40], [N, 256, 4 * k1 + 8, 4 * k2 + 8, 4 * k3 + 8]],
              Call CenterCrop [[N, 64, 8 * k1 + 88, 8 * k2 + 88, 8 * k3 + 88], [N, 128, 8 * k1 + 8, 8 * k2 + 8, 8 * k3 + 8]]]"
      and cats: "filter is_cat tr =
             [Call (TorchCat 1) [[N, 256, 2 * k1 + 8, 2 * k2 + 8, 2 * k3 + 8], [N, 512, 2 * k1 + 8, 2 * k2 + 8, 2 * k3 + 8]],
              Call (TorchCat 1) [[N, 128, 4 * k1 + 8, 4 * k2 + 8, 4 * k3 + 8], [N, 256, 4 * k1 + 8, 4 * k2 + 8, 4 * k3 + 8]],
              Call (TorchCat 1) [[N, 64, 8 * k1 + 8, 8 * k2 + 8, 8 * k3 + 8], [N, 128, 8 * k1 + 8, 8 * k2 + 8, 8 * k3 + 8]]]"
    by blast
  have "list_all crop_ok (filter is_crop tr)" unfolding crops by simp
  then have c1: "list_all crop_ok tr" by (rule crop_ok_filter)
  have "list_all cat_ok (filter is_cat tr)" unfolding cats by simp
  then have c2: "list_all cat_ok tr" by (rule cat_ok_filter)
  have c3: "length (filter is_crop tr) = 3" "length (filter is_cat tr) = 3"
    unfolding crops cats by simp_all
  have "shape t = [N, out_ch, d1 - 88, d2 - 88, d3 - 88]"
    unfolding st k by simp
  with run c1 c2 c3 show ?thesis by blast
qed

theorem forward_on_valid_sizes_witness:
  "\<exists>tr t st'. forward torch0 (projr (init 1 2)) (zeros [3, 1, 92, 100, 108]) fresh = ((tr, Inr t), st') \<and>
           shape t = [3, 2, 4, 12, 20] \<and>
           list_all crop_ok tr \<and> length (filter is_crop tr) = 3 \<and>
           list_all cat_ok tr \<and> length (filter is_cat tr) = 3"
  using forward_on_valid_sizes [of 1 2 "projr (init 1 2)" "zeros [3, 1, 92, 100, 108]" 3 92 100 108 torch0 fresh]
  by (simp add: init_eq zeros_def)

section \<open>The fixed layer order\<close>

lemma thenS_assoc: "thenS (thenS m f) g = thenS m (\<lambda>a. thenS (f a) g)"
  by (rule ext) (simp add: thenS_def split: prod.splits sum.splits)

lemma thenS_returnS_left: "thenS (returnS a) f = f a"
  by (rule ext) (simp add: thenS_def returnS_def returnM_def split: prod.splits)

lemma forward_eq_spec: "forward T net x = spec_forward T net x"
  unfolding forward_def spec_forward_def spec_encoder.simps spec_decoder.simps
  by (simp add: thenS_assoc thenS_returnS_left thenS_returnS_right case_prod_unfold)

text \<open>
  C3: \<open>forward\<close> makes the same calls in the same order, returns the same result and
  leaves the same layer state as the specification's pipeline: encoder blocks 1 to 4
  with the max-pool between consecutive blocks, three decoder stages (transposed
  convolution, concatenation along dimension 1 of the centre-cropped output of encoder
  block 3, then 2, then 1 with the upsampled tensor, decoder block), and the final
  convolution. In the network that \<open>__init__\<close> builds the blocks are double convolutions,
  the pool is \<open>MaxPool3d 2\<close>, the upsampling layers are transposed convolutions with kernel
  2 and stride 2, and the final convolution has kernel size 1 and \<open>out_channels\<close> output
  channels.
\<close>

theorem forward_layer_order:
  "forward T net x = spec_forward T net x \<and>
   (\<exists>built. init in_ch out_ch = Inr built \<and>
      encoder_conv1 built = double_conv in_ch 32 64 \<and>
      encoder_conv2 built = double_conv 64 64 128 \<and>
      encoder_conv3 built = double_conv 128 128 256 \<and>
      encoder_conv4 built = double_conv 256 256 512 \<and>
      maxpool built = MaxPool3d 2 \<and>
      upconv1 built = ConvTranspose3d 512 512 2 2 \<and>
      decoder_conv1 built = double_conv (256 + 512) 256 256 \<and>
      upconv2 built = ConvTranspose3d 256 256 2 2 \<and>
      decoder_conv2 built = double_conv (128 + 256) 128 128 \<and>
      upconv3 built = ConvTranspose3d 128 128 2 2 \<and>
      decoder_conv3 built = double_conv (64 + 128) 64 64 \<and>
      outconv built = Conv3d 64 out_ch 1)"
  by (simp add: forward_eq_spec init_eq)

section \<open>Operators in the graph\<close>

lemma trace_prepend: "fst (fst (prepend tr run)) = tr @ fst (fst run)"
  by (simp add: prepend_def split: prod.splits)

lemma listed_thenS:
  assumes "\<And>st. list_all P (fst (fst (m st)))" and "\<And>a st. list_all P (fst (fst (f a st)))"
  shows "list_all P (fst (fst (thenS m f st)))"
proof (cases "m st")
  case (Pair run st')
  obtain tr r where run: "run = (tr, r)" by (cases run)
  show ?thesis
  proof (cases r)
    case (Inl e)
    with Pair run assms(1)[of st] show ?thesis by (simp add: thenS_def)
  next
    case (Inr a)
    with Pair run assms(1)[of st] assms(2)[of a st'] show ?thesis
      by (simp add: thenS_prepend trace_prepend)
  qed
qed

lemma listed_liftS: "list_all P (fst m) \<Longrightarrow> list_all P (fst (fst (liftS m st)))"
  by (simp add: liftS_def)

lemma listed_call: "(\<And>s. P (Call (Layer nm i m) [s])) \<Longrightarrow> list_all P (fst (fst (call T nm i m x st)))"
  by (simp add: call_def logged_def Let_def split: sum.splits)

lemma listed_block:
  "list_all (\<lambda>e. code_listed (callee_of e)) (fst (fst (sequential T nm (double_conv c0 c1 c2) x st)))"
  unfolding sequential_def double_conv_def sequential_from.simps
  by (intro listed_thenS listed_call) (simp_all add: returnS_def returnM_def)

lemma listed_thenM:
  assumes "list_all P (fst m)" and "\<And>a. list_all P (fst (f a))"
  shows "list_all P (fst (thenM m f))"
proof (cases m)
  case (Pair tr r)
  show ?thesis
  proof (cases r)
    case (Inl e)
    with Pair assms(1) show ?thesis by (simp add: thenM_def)
  next
    case (Inr a)
    with Pair assms(1) assms(2)[of a] show ?thesis
      by (cases "f a") (simp add: thenM_def)
  qed
qed

lemma listed_center_crop:
  "list_all (\<lambda>e. code_listed (callee_of e)) (fst (center_crop a b))"
  unfolding center_crop_def
  by (intro listed_thenM) (simp_all add: logged_def liftE_def F_pad_def)

lemma listed_cat: "list_all (\<lambda>e. code_listed (callee_of e)) (fst (torch_cat a b ax))"
  by (simp add: torch_cat_def logged_def)

lemma listed_forward:
  assumes "init in_ch out_ch = Inr net"
  shows "list_all (\<lambda>e. code_listed (callee_of e)) (fst (fst (forward T net x st)))"
proof -
  have fields: "encoder_conv1 net = double_conv in_ch 32 64" "encoder_conv2 net = double_conv 64 64 128"
    "encoder_conv3 net = double_conv 128 128 256" "encoder_conv4 net = double_conv 256 256 512"
    "decoder_conv1 net = double_conv 768 256 256" "decoder_conv2 net = double_conv 384 128 128"
    "decoder_conv3 net = double_conv 192 64 64" "maxpool net = MaxPool3d 2"
    "upconv1 net = ConvTranspose3d 512 512 2 2" "upconv2 net = ConvTranspose3d 256 256 2 2"
    "upconv3 net = ConvTranspose3d 128 128 2 2" "outconv net = Conv3d 64 out_ch 1"
    using assms unfolding init_eq by auto
  show ?thesis
    unfolding forward_def fields
    by (intro listed_thenS listed_liftS listed_block listed_call listed_center_crop listed_cat)
       (simp_all add: returnS_def returnM_def)
qed

lemma list_all_take: "list_all P xs \<Longrightarrow> list_all P (take n xs)"
  by (auto simp add: list_all_iff dest: in_set_takeD)

text \<open>
  C7 as stated fails: the third call of every run is the ReLU activation inside the
  first double convolution block, which is none of the four listed operator kinds.
\<close>

theorem relu_not_listed_counterexample:
  "take 3 (map callee_of (fst (fst (build_and_forward torch0 1 2 (zeros [1, 1, 92, 92, 92]) fresh)))) =
     [Layer ''encoder_conv1'' 0 (Conv3d 1 32 3), Layer ''encoder_conv1'' 1 (BatchNorm3d 32),
      Layer ''encoder_conv1'' 2 ReLU] \<and>
   \<not> spec_listed (Layer ''encoder_conv1'' 2 ReLU) \<and>
   \<not> list_all spec_listed (map callee_of (fst (fst (build_and_forward torch0 1 2 (zeros [1, 1, 92, 92, 92]) fresh))))"
proof -
  let ?x = "zeros [1, 1, 92, 92, 92] :: int tensor"
  let ?calls = "map callee_of (fst (fst (build_and_forward torch0 1 2 ?x fresh)))"
  obtain net where net: "init 1 2 = Inr net" by (simp add: init_eq)
  have "shape ?x = [1, 1, 8 * 0 + 92, 8 * 0 + 92, 8 * 0 + 92]" by (simp add: zeros_def)
  from forward_run[OF net _ _ this, of torch0 fresh] obtain tr t st'
    where run: "forward torch0 net ?x fresh = ((tr, Inr t), st')"
      and "take 3 (map callee_of tr) =
             [Layer ''encoder_conv1'' 0 (Conv3d 1 32 3), Layer ''encoder_conv1'' 1 (BatchNorm3d 32),
              Layer ''encoder_conv1'' 2 ReLU]"
    by auto
  then have first: "take 3 ?calls =
     [Layer ''encoder_conv1'' 0 (Conv3d 1 32 3), Layer ''encoder_conv1'' 1 (BatchNorm3d 32),
      Layer ''encoder_conv1'' 2 ReLU]"
    by (simp only: build_and_forward_eq[OF net] fst_conv)
  have "\<not> list_all spec_listed (take 3 ?calls)"
    unfolding first by simp
  then have "\<not> list_all spec_listed ?calls"
    using list_all_take by blast
  with first show ?thesis by simp
qed

text \<open>
  C7 (amended): every operator that \<open>forward\<close> applies in a network built by \<open>__init__\<close> is
  a 3D convolution, batch normalisation, ReLU activation, max-pooling or transposed
  convolution layer, or one of the functional calls \<open>F.pad\<close> (inside \<open>center_crop\<close>) and
  \<open>torch.cat\<close>.
\<close>

theorem forward_operators_listed:
  "init in_ch out_ch = Inr net \<Longrightarrow> list_all code_listed (map callee_of (fst (fst (forward T net x st))))"
  using listed_forward[of in_ch out_ch net T x st] by (simp add: list_all_iff)

theorem forward_operators_listed_witness:
  "list_all code_listed (map callee_of (fst (fst (forward torch0 (projr (init 1 2)) (zeros [1, 1, 92, 92, 92]) fresh)))) \<and>
   take 3 (map callee_of (fst (fst (forward torch0 (projr (init 1 2)) (zeros [1, 1, 92, 92, 92]) fresh)))) =
     [Layer ''encoder_conv1'' 0 (Conv3d 1 32 3), Layer ''encoder_conv1'' 1 (BatchNorm3d 32),
      Layer ''encoder_conv1'' 2 ReLU]"
proof -
  let ?x = "zeros [1, 1, 92, 92, 92] :: int tensor" and ?net = "projr (init 1 2)"
  have net: "init 1 2 = Inr ?net" by (simp add: init_eq)
  have "shape ?x = [1, 1, 8 * 0 + 92, 8 * 0 + 92, 8 * 0 + 92]" by (simp add: zeros_def)
  from forward_run[OF net _ _ this, of torch0 fresh] obtain tr t st'
    where run: "forward torch0 ?net ?x fresh = ((tr, Inr t), st')"
      and "take 3 (map callee_of tr) =
             [Layer ''encoder_conv1'' 0 (Conv3d 1 32 3), Layer ''encoder_conv1'' 1 (BatchNorm3d 32),
              Layer ''encoder_conv1'' 2 ReLU]"
    by auto
  then have "take 3 (map callee_of (fst (fst (forward torch0 ?net ?x fresh)))) =
     [Layer ''encoder_conv1'' 0 (Conv3d 1 32 3), Layer ''encoder_conv1'' 1 (BatchNorm3d 32),
      Layer ''encoder_conv1'' 2 ReLU]"
    by (simp only: fst_conv)
  then show ?thesis
    using forward_operators_listed [OF net, of torch0 ?x fresh] by simp
qed

section \<open>Input independence\<close>

lemma same_run_F_pad: "shape x = shape y \<Longrightarrow> same_run (F_pad x pads) (F_pad y pads)"
  by (simp add: same_run_def F_pad_def logged_def Let_def)

lemma same_run_thenM_eq:
  assumes "\<And>a. same_run (f a) (f' a)"
  shows "same_run (thenM m f) (thenM m f')"
proof (cases m)
  case (Pair tr r)
  show ?thesis
  proof (cases r)
    case (Inl e)
    with Pair show ?thesis by (simp add: same_run_def)
  next
    case (Inr a)
    with Pair assms[of a] show ?thesis
      by (auto simp add: same_run_def split: sum.splits prod.splits)
  qed
qed

lemma same_run_center_crop:
  assumes "shape a = shape a'" and "shape b = shape b'"
  shows "same_run (center_crop a b) (center_crop a' b')"
proof -
  have c: "crop_amount a b i = crop_amount a' b' i" for i
    by (simp add: crop_amount_def assms)
  show ?thesis
    unfolding center_crop_def c assms
    by (intro same_run_thenM_eq same_run_F_pad assms)
qed

lemma same_run_cat:
  "shape a = shape a' \<Longrightarrow> shape b = shape b' \<Longrightarrow> same_run (torch_cat a b ax) (torch_cat a' b' ax)"
  by (simp add: same_run_def torch_cat_def logged_def)

lemma shape_driven_thenS:
  assumes m: "shape_driven m m'"
    and f: "\<And>a b. shape a = shape b \<Longrightarrow> shape_driven (f a) (f' b)"
  shows "shape_driven (thenS m f) (thenS m' f')"
proof -
  have "same_run (fst (thenS m f st)) (fst (thenS m' f' st')) \<and>
        training (snd (thenS m f st)) = training (snd (thenS m' f' st'))"
    if mode: "training st = training st'" for st st' :: "'a buffers"
  proof -
    obtain tr r s1 where r1: "m st = ((tr, r), s1)" by (cases "m st") auto
    obtain tr' r' s1' where r2: "m' st' = ((tr', r'), s1')" by (cases "m' st'") auto
    from m mode have "same_run (fst (m st)) (fst (m' st')) \<and> training (snd (m st)) = training (snd (m' st'))"
      unfolding shape_driven_def by blast
    then have tr: "tr = tr'" and mode1: "training s1 = training s1'"
      and res: "case r of Inl e \<Rightarrow> r' = Inl e
                | Inr t \<Rightarrow> (case r' of Inl e' \<Rightarrow> False | Inr t' \<Rightarrow> shape t = shape t')"
      unfolding r1 r2 same_run_def by (auto split: sum.splits)
    show ?thesis
    proof (cases r)
      case (Inl e)
      with res r1 r2 tr mode1 show ?thesis by (simp add: thenS_def same_run_def)
    next
      case (Inr a)
      with res obtain b where b: "r' = Inr b" "shape a = shape b" by (cases r') auto
      obtain tr2 r2a s2 where q1: "f a s1 = ((tr2, r2a), s2)" by (cases "f a s1") auto
      obtain tr2' r2a' s2' where q2: "f' b s1' = ((tr2', r2a'), s2')" by (cases "f' b s1'") auto
      from f[OF b(2)] mode1
      have "same_run (fst (f a s1)) (fst (f' b s1')) \<and> training (snd (f a s1)) = training (snd (f' b s1'))"
        unfolding shape_driven_def by blast
      then show ?thesis
        unfolding q1 q2 using r1 r2 Inr b tr q1 q2
        by (auto simp add: thenS_def same_run_def split: sum.splits)
    qed
  qed
  then show ?thesis unfolding shape_driven_def by blast
qed

lemma shape_driven_returnS: "shape a = shape b \<Longrightarrow> shape_driven (returnS a) (returnS b)"
  by (simp add: shape_driven_def same_run_def returnS_def returnM_def)

lemma shape_driven_liftS: "same_run m m' \<Longrightarrow> shape_driven (liftS m) (liftS m')"
  by (simp add: shape_driven_def liftS_def)

lemma shape_driven_call: "shape x = shape y \<Longrightarrow> shape_driven (call T nm i m x) (call T' nm i m y)"
  by (simp add: shape_driven_def same_run_def call_def logged_def Let_def count_batch_def remember_def
        split: sum.splits)

lemma shape_driven_sequential_from:
  "shape x = shape y \<Longrightarrow> shape_driven (sequential_from T nm i ms x) (sequential_from T' nm i ms y)"
proof (induction ms arbitrary: i x y)
  case Nil
  then show ?case by (simp add: shape_driven_returnS)
next
  case (Cons m ms)
  show ?case
    unfolding sequential_from.simps
    by (rule shape_driven_thenS) (simp_all add: shape_driven_call Cons)
qed

lemma shape_driven_sequential:
  "shape x = shape y \<Longrightarrow> shape_driven (sequential T nm ms x) (sequential T' nm ms y)"
  unfolding sequential_def by (rule shape_driven_sequential_from)

lemmas shape_driven_intros =
  shape_driven_thenS shape_driven_returnS shape_driven_call shape_driven_sequential
  shape_driven_liftS same_run_center_crop same_run_cat

lemma shape_driven_forward:
  "shape x = shape y \<Longrightarrow> shape_driven (forward T net x) (forward T' net y)"
  unfolding forward_def
  by (intro shape_driven_intros; assumption)

lemma agree_refl: "agree st st"
  by (simp add: agree_def)

lemma agree_trans: "agree a b \<Longrightarrow> agree b c \<Longrightarrow> agree a c"
  by (auto simp add: agree_def)

lemma steady_thenS:
  assumes m: "steady m" and f: "\<And>a. steady (f a)"
  shows "steady (thenS m f)"
proof -
  have one: "fst (thenS m f st) = fst (thenS m f st') \<and> agree (snd (thenS m f st)) (snd (thenS m f st'))"
    if ag: "agree st st'" for st st' :: "'a buffers"
  proof -
    obtain tr r s1 where r1: "m st = ((tr, r), s1)" by (cases "m st") auto
    obtain run' s1' where r2': "m st' = (run', s1')" by (cases "m st'") auto
    from m ag have "fst (m st) = fst (m st') \<and> agree (snd (m st)) (snd (m st'))"
      unfolding steady_def by blast
    then have r2: "m st' = ((tr, r), s1')" and ag1: "agree s1 s1'"
      unfolding r1 r2' by simp_all
    show ?thesis
    proof (cases r)
      case (Inl e)
      with r1 r2 ag1 show ?thesis by (simp add: thenS_def)
    next
      case (Inr a)
      obtain tr2 r2a s2 where q1: "f a s1 = ((tr2, r2a), s2)" by (cases "f a s1") auto
      obtain tr2' r2a' s2' where q2: "f a s1' = ((tr2', r2a'), s2')" by (cases "f a s1'") auto
      from f[of a] ag1 have "fst (f a s1) = fst (f a s1') \<and> agree (snd (f a s1)) (snd (f a s1'))"
        unfolding steady_def by blast
      then show ?thesis
        unfolding q1 q2 using r1 r2 Inr q1 q2 by (simp add: thenS_def)
    qed
  qed
  have two: "agree st (snd (thenS m f st))" for st :: "'a buffers"
  proof -
    obtain tr r s1 where r1: "m st = ((tr, r), s1)" by (cases "m st") auto
    from m have "agree st (snd (m st))" unfolding steady_def by blast
    then have a1: "agree st s1" unfolding r1 by simp
    show ?thesis
    proof (cases r)
      case (Inl e)
      with r1 a1 show ?thesis by (simp add: thenS_def)
    next
      case (Inr a)
      obtain tr2 r2a s2 where q1: "f a s1 = ((tr2, r2a), s2)" by (cases "f a s1") auto
      from f[of a] have "agree s1 (snd (f a s1))" unfolding steady_def by blast
      with a1 have "agree st (snd (f a s1))" by (rule agree_trans)
      then show ?thesis
        unfolding q1 using r1 Inr q1 by (simp add: thenS_def)
    qed
  qed
  from one two show ?thesis unfolding steady_def by blast
qed

lemma steady_returnS: "steady (returnS a)"
  by (simp add: steady_def returnS_def agree_refl)

lemma steady_liftS: "steady (liftS m)"
  by (simp add: steady_def liftS_def agree_refl)

lemma steady_call: "steady (call T nm i m x)"
  unfolding steady_def
  by (auto simp add: agree_def call_def logged_def Let_def count_batch_def remember_def
        split: sum.splits)

lemma steady_sequential_from: "steady (sequential_from T nm i ms x)"
proof (induction ms arbitrary: i x)
  case Nil
  then show ?case by (simp add: steady_returnS)
next
  case (Cons m ms)
  show ?case
    unfolding sequential_from.simps
    by (rule steady_thenS) (simp_all add: steady_call Cons)
qed

lemma steady_sequential: "steady (sequential T nm ms x)"
  unfolding sequential_def by (rule steady_sequential_from)

lemma steady_forward: "steady (forward T net x)"
  unfolding forward_def
  by (intro steady_thenS steady_returnS steady_liftS steady_call steady_sequential)

lemma counter_thenS:
  assumes "a \<le> num_batches_tracked (snd (m st)) p q"
    and "\<And>v s. num_batches_tracked s p q \<le> num_batches_tracked (snd (f v s)) p q"
  shows "a \<le> num_batches_tracked (snd (thenS m f st)) p q"
proof -
  obtain tr r s1 where r1: "m st = ((tr, r), s1)" by (cases "m st") auto
  show ?thesis
  proof (cases r)
    case (Inl e)
    with r1 assms(1) show ?thesis by (simp add: thenS_def)
  next
    case (Inr v)
    obtain tr2 r2 s2 where q1: "f v s1 = ((tr2, r2), s2)" by (cases "f v s1") auto
    from assms(2)[of s1 v] q1 have "num_batches_tracked s1 p q \<le> num_batches_tracked s2 p q" by simp
    with assms(1) r1 have "a \<le> num_batches_tracked s2 p q" by simp
    with r1 Inr q1 show ?thesis by (simp add: thenS_def)
  qed
qed

lemma counter_call:
  "num_batches_tracked st p q \<le> num_batches_tracked (snd (call T nm i m x st)) p q"
  by (simp add: call_def Let_def count_batch_def remember_def split: sum.splits)

lemma counter_returnS: "num_batches_tracked st p q \<le> num_batches_tracked (snd (returnS a st)) p q"
  by (simp add: returnS_def)

lemma counter_liftS: "num_batches_tracked st p q \<le> num_batches_tracked (snd (liftS m st)) p q"
  by (simp add: liftS_def)

lemma counter_sequential_from:
  "num_batches_tracked st p q \<le> num_batches_tracked (snd (sequential_from T nm i ms x st)) p q"
proof (induction ms arbitrary: i x st)
  case Nil
  then show ?case by (simp add: counter_returnS)
next
  case (Cons m ms)
  show ?case
    unfolding sequential_from.simps
    by (rule counter_thenS) (simp_all add: counter_call Cons)
qed

lemma counter_sequential:
  "num_batches_tracked st p q \<le> num_batches_tracked (snd (sequential T nm ms x st)) p q"
  unfolding sequential_def by (rule counter_sequential_from)

lemma block_counts_batch:
  assumes sh: "shape x = [n, cin, d, h, w]" and big: "3 \<le> d" "3 \<le> h" "3 \<le> w"
    and ch: "0 < cin" "0 < cmid" and mode: "training st"
  shows "Suc (num_batches_tracked st nm 1) \<le>
           num_batches_tracked (snd (sequential T nm (double_conv cin cmid cout) x st)) nm 1"
proof -
  have "layer_shape (training st) (Conv3d cin cmid 3) (shape x) = Inr [n, cmid, d - 2, h - 2, w - 2]"
    using big ch by (auto simp add: sh)
  then obtain t1 where c1: "call T nm 0 (Conv3d cin cmid 3) x st =
        (([Call (Layer nm 0 (Conv3d cin cmid 3)) [shape x]], Inr t1), st)"
    and s1: "shape t1 = [n, cmid, d - 2, h - 2, w - 2]"
    by (simp add: call_def logged_def Let_def)
  have c2: "Suc (num_batches_tracked st nm 1) \<le>
              num_batches_tracked (snd (call T nm 1 (BatchNorm3d cmid) t1 st)) nm 1"
    using mode by (simp add: call_def Let_def count_batch_def remember_def s1 split: sum.splits)
  have n: "Suc 0 = 1" by simp
  have state: "snd (prepend tr run) = snd run" for tr and run :: "'a tensor traced \<times> 'a buffers"
    by (simp add: prepend_def split_beta)
  have rest: "Suc (num_batches_tracked st nm 1) \<le>
      num_batches_tracked (snd (thenS (call T nm 1 (BatchNorm3d cmid) t1) f st)) nm 1"
    if "\<And>v s. num_batches_tracked s nm 1 \<le> num_batches_tracked (snd (f v s)) nm 1" for f
    by (rule counter_thenS) (rule c2, rule that)
  show ?thesis
    unfolding sequential_def double_conv_def sequential_from.simps n
    apply (simp only: thenS_prepend[where m = "call T nm 0 (Conv3d cin cmid 3) x"] c1 prod.case
        sum.case state)
    apply (rule rest)
    apply (intro counter_thenS counter_call counter_returnS)
    done
qed

lemma forward_counts_batch:
  assumes net: "init ic oc = Inr net" and ic: "0 < ic"
    and sh: "shape x = [n, ic, d, h, w]" and big: "3 \<le> d" "3 \<le> h" "3 \<le> w"
    and mode: "training st"
  shows "Suc (num_batches_tracked st ''encoder_conv1'' 1) \<le>
           num_batches_tracked (snd (forward T net x st)) ''encoder_conv1'' 1"
proof -
  have fields: "encoder_conv1 net = double_conv ic 32 64"
    using net unfolding init_eq by auto
  show ?thesis
    unfolding forward_def fields
    by (intro counter_thenS block_counts_batch[OF sh big ic _ mode] counter_call counter_liftS
          counter_sequential counter_returnS) simp
qed

text \<open>
  C8: the calls \<open>forward\<close> makes, and whether and how it fails, depend on the shape of the
  input and the mode only, not on the values of the input, the weights or the running
  statistics: two inputs of the same shape give the same trace and either the same
  exception or results of the same shape. A run changes the layer state (in training
  mode every batch normalisation counts the batch and updates its running statistics),
  and still a second run on the same input, and a run after a run on any other input,
  makes the same calls and returns the same result as the first.
\<close>

theorem forward_input_independent:
  "(shape x = shape y \<and> training st = training st' \<longrightarrow>
      same_run (fst (forward T net x st)) (fst (forward T' net y st'))) \<and>
   fst (forward T net x (snd (forward T net x st))) = fst (forward T net x st) \<and>
   fst (forward T net x (snd (forward T net y st))) = fst (forward T net x st)"
proof -
  have "agree st (snd (forward T net z st))" for z
    using steady_forward[of T net z] unfolding steady_def by blast
  then have "fst (forward T net x st) = fst (forward T net x (snd (forward T net z st)))" for z
    using steady_forward[of T net x] unfolding steady_def by blast
  then show ?thesis
    using shape_driven_forward[of x y T net T'] unfolding shape_driven_def by simp
qed

theorem forward_input_independent_witness:
  "same_run (fst (forward torch0 (projr (init 1 2)) (zeros [1, 1, 92, 92, 92]) fresh))
            (fst (forward torch0 (projr (init 1 2)) (ramp [1, 1, 92, 92, 92]) fresh)) \<and>
   zeros [1, 1, 92, 92, 92] \<noteq> ramp [1, 1, 92, 92, 92] \<and>
   fst (forward torch0 (projr (init 1 2)) (zeros [1, 1, 92, 92, 92])
          (snd (forward torch0 (projr (init 1 2)) (zeros [1, 1, 92, 92, 92]) fresh))) =
     fst (forward torch0 (projr (init 1 2)) (zeros [1, 1, 92, 92, 92]) fresh) \<and>
   snd (forward torch0 (projr (init 1 2)) (zeros [1, 1, 92, 92, 92]) fresh) \<noteq> fresh"
proof -
  let ?net = "projr (init 1 2)" and ?x = "zeros [1, 1, 92, 92, 92] :: int tensor"
  have "elem (zeros [1, 1, 92, 92, 92]) [0, 0, 0, 0, 1] \<noteq> elem (ramp [1, 1, 92, 92, 92]) [0, 0, 0, 0, 1]"
    by (simp add: zeros_def ramp_def)
  then have ne: "zeros [1, 1, 92, 92, 92] \<noteq> ramp [1, 1, 92, 92, 92]" by metis
  have net: "init 1 2 = Inr ?net" by (simp add: init_eq)
  have "Suc (num_batches_tracked (fresh :: int buffers) ''encoder_conv1'' 1) \<le>
           num_batches_tracked (snd (forward torch0 ?net ?x fresh)) ''encoder_conv1'' 1"
    by (rule forward_counts_batch[OF net, of ?x 1 92 92 92]) (simp_all add: zeros_def fresh_def)
  then have changed: "snd (forward torch0 ?net ?x fresh) \<noteq> fresh"
    by (metis Suc_n_not_le_n)
  show ?thesis
    using forward_input_independent [of ?x "ramp [1, 1, 92, 92, 92]" fresh fresh torch0 ?net torch0] ne changed
    by (simp add: zeros_def ramp_def)
qed

section \<open>Step hooks\<close>

text \<open>
  C4: when \<open>forward\<close> returns \<open>y_hat\<close> on the batch input, \<open>training_step\<close> returns
  \<open>{"loss": l}\<close> with \<open>l\<close> the criterion (BCEWithLogitsLoss) applied to \<open>y_hat\<close> and
  \<open>batch["masks"]\<close>, and \<open>validation_step\<close> and \<open>test_step\<close> return \<open>{"val_loss": l}\<close> and
  \<open>{"test_loss": l}\<close> with \<open>l\<close> the cross entropy of \<open>y_hat\<close> and \<open>y\<close>; the only call a hook
  makes besides those of \<open>forward\<close> is the one loss call, and it leaves the layer state as
  \<open>forward\<close> left it.
\<close>

theorem step_hooks_forward_then_loss:
  fixes T :: "('a::zero, 't, 'l) torch"
  assumes "init in_ch out_ch = Inr net" and "forward T net x st = ((tr, Inr y_hat), st')"
  shows "(batch ''input'' = Some x \<and> batch ''masks'' = Some masks \<and> bce_with_logits T y_hat masks = Inr l \<longrightarrow>
           training_step T net batch batch_idx st =
             ((tr @ [Call (Layer ''criterion'' 0 BCEWithLogitsLoss) [shape y_hat, shape masks]],
               Inr [''loss'' \<mapsto> l]), st')) \<and>
         (cross_entropy T y_hat y = Inr l \<longrightarrow>
           validation_step T net (x, y) batch_idx st =
             ((tr @ [Call FCrossEntropy [shape y_hat]], Inr [''val_loss'' \<mapsto> l]), st') \<and>
           test_step T net (x, y) batch_idx st =
             ((tr @ [Call FCrossEntropy [shape y_hat]], Inr [''test_loss'' \<mapsto> l]), st'))"
proof -
  have "criterion net = BCEWithLogitsLoss"
    using assms(1) unfolding init_eq by auto
  then show ?thesis
    using assms(2)
    by (simp add: training_step_def validation_step_def test_step_def getitem_def liftE_def
        call_criterion_def F_cross_entropy_def logged_def returnS_def returnM_def thenS_def liftS_def)
qed

theorem step_hooks_forward_then_loss_witness:
  "snd (fst (training_step torch0 (projr (init 1 2))
          [''input'' \<mapsto> zeros [1, 1, 92, 92, 92], ''masks'' \<mapsto> zeros [1, 2, 4, 4, 4]] 0 fresh)) =
     Inr [''loss'' \<mapsto> Finite 0] \<and>
   snd (fst (validation_step torch0 (projr (init 1 2)) (zeros [1, 1, 92, 92, 92], zeros [1, 4, 4, 4]) 0 fresh)) =
     Inr [''val_loss'' \<mapsto> Finite 0] \<and>
   snd (fst (test_step torch0 (projr (init 1 2)) (zeros [1, 1, 92, 92, 92], zeros [1, 4, 4, 4]) 0 fresh)) =
     Inr [''test_loss'' \<mapsto> Finite 0]"
proof -
  let ?net = "projr (init 1 2)" and ?x = "zeros [1, 1, 92, 92, 92] :: int tensor"
  have net: "init 1 2 = Inr ?net" by (simp add: init_eq)
  have "shape ?x = [1, 1, 8 * 0 + 92, 8 * 0 + 92, 8 * 0 + 92]" by (simp add: zeros_def)
  from forward_run[OF net _ _ this, of torch0 fresh] obtain tr t st'
    where run: "forward torch0 ?net ?x fresh = ((tr, Inr t), st')"
    by auto
  have l: "bce_with_logits torch0 t masks = Inr (Finite 0)" "cross_entropy torch0 t y = Inr (Finite 0)" for masks y
    by (simp_all add: torch0_def)
  show ?thesis
    using step_hooks_forward_then_loss [OF net run,
        where batch = "[''input'' \<mapsto> zeros [1, 1, 92, 92, 92], ''masks'' \<mapsto> zeros [1, 2, 4, 4, 4]]"
          and masks = "zeros [1, 2, 4, 4, 4]" and l = "Finite 0" and y = "zeros [1, 4, 4, 4]" and batch_idx = 0] l
    by simp
qed

section \<open>Epoch-end hooks\<close>






end
